theory Spec2Isabelle
  imports Complex_Main
begin


section \<open>JavaScript strings and arrays\<close>

text \<open>
  A JavaScript string is modelled as a \<^typ>\<open>string\<close>, one \<^typ>\<open>char\<close> per code unit
  (the 8-bit range), and a JavaScript number that holds an index, a line number or an
  offset as an \<^typ>\<open>int\<close>: the splitter and the windower subtract the overlap from
  such a number and can make it negative.  Reading \<open>lines[i]\<close> outside the array
  gives \<open>undefined\<close>, and calling \<open>.trim()\<close> on it throws a \<open>TypeError\<close>;
  the parser library throws a \<open>SyntaxError\<close>.
\<close>

datatype js_error = TypeError | SyntaxError string

text \<open>
  A loop of the source runs on fuel, one unit per iteration.  \<open>Returned x\<close> is a
  normal return, \<open>Threw e\<close> an exception that leaves the function, and
  \<open>Running s\<close> says that the loop has not left after the given number of
  iterations and stands in state \<open>s\<close>.
\<close>

datatype ('s, 'a) outcome = Returned 'a | Threw js_error | Running 's

definition nlc :: char where
  "nlc = CHR 0x0A"

definition nl :: string where
  "nl = [nlc]"

text \<open>\<open>s.split(sep)\<close> for a one-character separator.\<close>

fun jsSplit :: "char \<Rightarrow> string \<Rightarrow> string list" where
  "jsSplit sep [] = [[]]"
| "jsSplit sep (c # cs) =
     (if c = sep then [] # jsSplit sep cs
      else (case jsSplit sep cs of [] \<Rightarrow> [[c]] | l # ls \<Rightarrow> (c # l) # ls))"

text \<open>\<open>xs.join(sep)\<close>.\<close>

fun jsJoin :: "string \<Rightarrow> string list \<Rightarrow> string" where
  "jsJoin sep [] = []"
| "jsJoin sep [x] = x"
| "jsJoin sep (x # y # ys) = x @ sep @ jsJoin sep (y # ys)"

text \<open>
  The white space that \<open>trim\<close> strips and \<open>\s\<close> matches, within the 8-bit range:
  tab, line feed, vertical tab, form feed, carriage return, space, no-break space.
\<close>

definition isSpace :: "char \<Rightarrow> bool" where
  "isSpace c = (c = CHR 0x09 \<or> c = CHR 0x0A \<or> c = CHR 0x0B \<or> c = CHR 0x0C
     \<or> c = CHR 0x0D \<or> c = CHR 0x20 \<or> c = CHR 0xA0)"

definition trimStart :: "string \<Rightarrow> string" where
  "trimStart s = dropWhile isSpace s"

definition trimEnd :: "string \<Rightarrow> string" where
  "trimEnd s = rev (dropWhile isSpace (rev s))"

definition trim :: "string \<Rightarrow> string" where
  "trim s = trimEnd (trimStart s)"

definition startsWith :: "string \<Rightarrow> string \<Rightarrow> bool" where
  "startsWith s p = (take (length p) s = p)"

definition endsWith :: "string \<Rightarrow> string \<Rightarrow> bool" where
  "endsWith s p = (length p \<le> length s \<and> drop (length s - length p) s = p)"

text \<open>
  \<open>s.substring(a, b)\<close>: each argument is clamped to \<open>[0, s.length]\<close> and the two
  are swapped when \<open>a > b\<close>.
\<close>

definition clampIndex :: "int \<Rightarrow> nat \<Rightarrow> nat" where
  "clampIndex i n = (if i < 0 then 0 else min (nat i) n)"

definition substring :: "string \<Rightarrow> int \<Rightarrow> int \<Rightarrow> string" where
  "substring s a b =
     (let x = clampIndex a (length s); y = clampIndex b (length s)
      in take (max x y - min x y) (drop (min x y) s))"

text \<open>
  \<open>xs.slice(a, b)\<close>: a negative argument counts from the end of the array, and the
  result is empty when the start is not before the end.
\<close>

definition sliceIndex :: "int \<Rightarrow> nat \<Rightarrow> nat" where
  "sliceIndex i n = (if i < 0 then nat (int n + i) else min (nat i) n)"

definition jsSlice :: "'a list \<Rightarrow> int \<Rightarrow> int \<Rightarrow> 'a list" where
  "jsSlice xs a b =
     (let x = sliceIndex a (length xs); y = sliceIndex b (length xs)
      in take (y - x) (drop x xs))"

text \<open>A string is truthy when it is present and not empty.\<close>

fun truthy :: "string option \<Rightarrow> bool" where
  "truthy None = False"
| "truthy (Some s) = (s \<noteq> [])"


section \<open>Chunks\<close>

text \<open>
  The chunk objects of \<open>code-parser.js\<close> and \<open>smart-chunker.js\<close>.  A field that an
  object literal leaves out is \<open>None\<close> (or \<open>False\<close> for the flags, which the source
  only tests for truth); \<open>null\<close> is \<open>None\<close> too.  The field \<open>type\<close> is
  \<open>ctype\<close> here.
\<close>

record chunk =
  ctype :: string
  name :: "string option"
  startLine :: int
  endLine :: int
  startChar :: int
  endChar :: int
  content :: string
  signature :: "string option"
  docstring :: "string option"
  decorators :: "string list option"
  isAsync :: bool
  isGenerator :: bool
  isExported :: bool
  isPartial :: bool
  partNumber :: "nat option"
  totalParts :: "nat option"
  parentChunk :: "string option"


text \<open>The options of \<open>intelligentChunk\<close>, with the defaults of the source; the sizes
  are natural numbers.\<close>

record options =
  maxChunkSize :: nat
  overlap :: nat
  minChunkSize :: nat
  preserveSignatures :: bool
  calculateComplexity :: bool

definition defaultOptions :: options where
  "defaultOptions = \<lparr> maxChunkSize = 4000, overlap = 200, minChunkSize = 500,
     preserveSignatures = True, calculateComplexity = True \<rparr>"


section \<open>The oversize splitter (\<open>smart-chunker.js\<close>)\<close>

text \<open>\<open>scoreSplitPoint\<close>: the checks of the source below the comment test.\<close>

definition scoreCodeLine :: "string \<Rightarrow> int" where
  "scoreCodeLine trimmed =
     (if trimmed = ''}'' \<or> trimmed = ''};'' \<or> trimmed = ''])'' \<or> trimmed = ''];'' then 7
      else if startsWith trimmed ''return '' then 6
      else if trimmed = ''break;'' \<or> trimmed = ''continue;'' then 5
      else 1)"

definition scoreSplitPoint :: "string \<Rightarrow> string \<Rightarrow> int" where
  "scoreSplitPoint line lang =
     (let trimmed = trim line in
      if trimmed = [] then 10
      else if lang = ''javascript'' \<or> lang = ''typescript'' then
        (if startsWith trimmed ''//'' \<or> startsWith trimmed ''/*'' \<or> startsWith trimmed ''*''
         then 8 else scoreCodeLine trimmed)
      else if lang = ''python'' then
        (if startsWith trimmed ''#'' then 8 else scoreCodeLine trimmed)
      else scoreCodeLine trimmed)"

text \<open>
  The \<open>for\<close> loop of \<open>findOptimalSplitPoint\<close>, \<open>k\<close> iterations from index \<open>i\<close>.
  An index outside the array makes \<open>scoreSplitPoint\<close> throw.
\<close>

fun scanWindow :: "string list \<Rightarrow> string \<Rightarrow> nat \<Rightarrow> int \<Rightarrow> int \<Rightarrow> int \<Rightarrow> js_error + int" where
  "scanWindow lines lang 0 i bestScore bestLine = Inr bestLine"
| "scanWindow lines lang (Suc k) i bestScore bestLine =
     (if i < 0 \<or> int (length lines) \<le> i then Inl TypeError
      else if scoreSplitPoint (lines ! nat i) lang > bestScore
        then scanWindow lines lang k (i + 1) (scoreSplitPoint (lines ! nat i) lang) i
        else scanWindow lines lang k (i + 1) bestScore bestLine)"

definition findOptimalSplitPoint :: "string list \<Rightarrow> int \<Rightarrow> int \<Rightarrow> string \<Rightarrow> js_error + int" where
  "findOptimalSplitPoint lines fromLine idealEndLine lang =
     (let windowSize = 10;
          searchStart = max fromLine (idealEndLine - windowSize);
          searchEnd = min (int (length lines)) (idealEndLine + windowSize)
      in scanWindow lines lang (nat (searchEnd - searchStart)) searchStart (- 1) idealEndLine)"

text \<open>The object that one iteration of \<open>splitWithOverlap\<close> pushes.\<close>

definition signatureLine :: "chunk \<Rightarrow> bool \<Rightarrow> nat \<Rightarrow> string list" where
  "signatureLine c keepSignature part =
     (case signature c of
        None \<Rightarrow> []
      | Some s \<Rightarrow> if keepSignature \<and> s \<noteq> [] \<and> part > 0 then [s @ '' {''] else [])"

definition subChunk :: "chunk \<Rightarrow> string list \<Rightarrow> bool \<Rightarrow> int \<Rightarrow> int \<Rightarrow> nat \<Rightarrow> chunk" where
  "subChunk c lines keepSignature currentLine splitPoint part =
     c\<lparr> content := jsJoin nl (signatureLine c keepSignature part @ jsSlice lines currentLine splitPoint),
        startLine := startLine c + currentLine,
        endLine := startLine c + splitPoint - 1,
        startChar := startChar c + int (length (jsJoin nl (jsSlice lines 0 currentLine))),
        endChar := startChar c + int (length (jsJoin nl (jsSlice lines 0 splitPoint))),
        isPartial := True,
        partNumber := Some part,
        totalParts := Some 0,
        parentChunk := name c,
        docstring := (if part = 0 then docstring c else None) \<rparr>"

record split_state =
  s_currentLine :: int
  s_partNumber :: nat
  s_chunks :: "chunk list"

text \<open>The \<open>while\<close> loop of \<open>splitWithOverlap\<close>.\<close>

fun splitLoop :: "nat \<Rightarrow> chunk \<Rightarrow> string list \<Rightarrow> int \<Rightarrow> int \<Rightarrow> bool \<Rightarrow> string \<Rightarrow> split_state
    \<Rightarrow> (split_state, chunk list) outcome" where
  "splitLoop 0 c lines linesPerChunk overlapLines keepSignature lang st = Running st"
| "splitLoop (Suc fuel) c lines linesPerChunk overlapLines keepSignature lang st =
     (if s_currentLine st < int (length lines) then
        (case findOptimalSplitPoint lines (s_currentLine st)
                (min (s_currentLine st + linesPerChunk) (int (length lines))) lang of
           Inl e \<Rightarrow> Threw e
         | Inr splitPoint \<Rightarrow>
             (if splitPoint - overlapLines \<ge> int (length lines) - overlapLines
              then Returned (s_chunks st @
                     [subChunk c lines keepSignature (s_currentLine st) splitPoint (s_partNumber st)])
              else splitLoop fuel c lines linesPerChunk overlapLines keepSignature lang
                     \<lparr> s_currentLine = splitPoint - overlapLines,
                       s_partNumber = s_partNumber st + 1,
                       s_chunks = s_chunks st @
                         [subChunk c lines keepSignature (s_currentLine st) splitPoint (s_partNumber st)] \<rparr>))
      else Returned (s_chunks st))"

text \<open>
  \<open>splitWithOverlap\<close>.  The source computes \<open>avgLineLength = content.length / lines.length\<close>
  and then \<open>Math.floor(maxChunkSize / avgLineLength)\<close> and
  \<open>Math.floor(overlap / avgLineLength)\<close> in double precision, where the quotient of a
  quotient can fall just below the exact one.  Double arithmetic is outside this
  model: the function takes as the parameter \<open>fq\<close> what the JavaScript engine computes,
  \<open>fq x len n = Math.floor(x / (len / n))\<close>, a natural number for the sizes that
  reach it.  The caller passes a chunk whose content is longer than \<open>maxChunkSize\<close>,
  so \<open>len\<close> is not 0.
\<close>

definition splitWithOverlap :: "(nat \<Rightarrow> nat \<Rightarrow> nat \<Rightarrow> nat) \<Rightarrow> nat \<Rightarrow> chunk \<Rightarrow> options \<Rightarrow> string
    \<Rightarrow> (split_state, chunk list) outcome" where
  "splitWithOverlap fq fuel c opts lang =
     (let lines = jsSplit nlc (content c);
          linesPerChunk = fq (maxChunkSize opts) (length (content c)) (length lines);
          overlapLines = fq (overlap opts) (length (content c)) (length lines)
      in case splitLoop fuel c lines (int linesPerChunk) (int overlapLines) (preserveSignatures opts) lang
                \<lparr> s_currentLine = 0, s_partNumber = 0, s_chunks = [] \<rparr> of
           Returned chunks \<Rightarrow> Returned (map (\<lambda>x. x\<lparr> totalParts := Some (length chunks) \<rparr>) chunks)
         | Threw e \<Rightarrow> Threw e
         | Running st \<Rightarrow> Running st)"


section \<open>The fallback windower (\<open>simpleChunk\<close>)\<close>

text \<open>The decimal digits of a number, as the template literal \<open>chunk_${partNumber}\<close> prints it.\<close>

function decimal :: "nat \<Rightarrow> string" where
  "decimal n =
     (if n < 10 then [''0123456789'' ! n]
      else decimal (n div 10) @ [''0123456789'' ! (n mod 10)])"
  by pat_completeness auto
termination
  by (relation "measure id") auto

declare decimal.simps [simp del]

text \<open>An object literal that gives the seven position fields and nothing else.\<close>

definition bareChunk :: "string \<Rightarrow> string \<Rightarrow> int \<Rightarrow> int \<Rightarrow> int \<Rightarrow> int \<Rightarrow> string \<Rightarrow> chunk" where
  "bareChunk t n sl el sc ec body =
     \<lparr> ctype = t, name = Some n, startLine = sl, endLine = el, startChar = sc, endChar = ec,
       content = body, signature = None, docstring = None, decorators = None,
       isAsync = False, isGenerator = False, isExported = False, isPartial = False,
       partNumber = None, totalParts = None, parentChunk = None \<rparr>"

text \<open>The object that one iteration of the loop of \<open>simpleChunk\<close> pushes.\<close>

definition windowChunk :: "string \<Rightarrow> nat \<Rightarrow> int \<Rightarrow> int \<Rightarrow> nat \<Rightarrow> chunk" where
  "windowChunk src maxSize start endPos part =
     (bareChunk ''text'' (''chunk_'' @ decimal part)
        (int (length (jsSplit nlc (substring src 0 start))) + 1)
        (int (length (jsSplit nlc (substring src 0 endPos))))
        start endPos (substring src start endPos))
     \<lparr> isPartial := maxSize < length src, partNumber := Some part, totalParts := Some 0 \<rparr>"

record window_state =
  w_start :: int
  w_partNumber :: nat
  w_chunks :: "chunk list"

fun windowLoop :: "nat \<Rightarrow> string \<Rightarrow> nat \<Rightarrow> nat \<Rightarrow> window_state \<Rightarrow> (window_state, chunk list) outcome" where
  "windowLoop 0 src maxSize ov st = Running st"
| "windowLoop (Suc fuel) src maxSize ov st =
     (if w_start st < int (length src) then
        (if min (w_start st + int maxSize) (int (length src)) - int ov \<ge> int (length src) - int ov
         then Returned (w_chunks st @
                [windowChunk src maxSize (w_start st)
                   (min (w_start st + int maxSize) (int (length src))) (w_partNumber st)])
         else windowLoop fuel src maxSize ov
                \<lparr> w_start = min (w_start st + int maxSize) (int (length src)) - int ov,
                  w_partNumber = w_partNumber st + 1,
                  w_chunks = w_chunks st @
                    [windowChunk src maxSize (w_start st)
                       (min (w_start st + int maxSize) (int (length src))) (w_partNumber st)] \<rparr>)
      else Returned (w_chunks st))"

definition simpleChunk :: "nat \<Rightarrow> string \<Rightarrow> options \<Rightarrow> (window_state, chunk list) outcome" where
  "simpleChunk fuel src opts =
     (if length src \<le> maxChunkSize opts then
        Returned [bareChunk ''text'' ''content'' 1 (int (length (jsSplit nlc src))) 0 (int (length src)) src]
      else
        (case windowLoop fuel src (maxChunkSize opts) (overlap opts)
                \<lparr> w_start = 0, w_partNumber = 0, w_chunks = [] \<rparr> of
           Returned chunks \<Rightarrow> Returned (map (\<lambda>x. x\<lparr> totalParts := Some (length chunks) \<rparr>) chunks)
         | Threw e \<Rightarrow> Threw e
         | Running st \<Rightarrow> Running st))"


section \<open>The language classifier (\<open>detectLanguage\<close>)\<close>

text \<open>
  \<open>path.extname\<close> of Node.js (POSIX), a library function: trailing slashes are
  dropped, the last segment of the path is cut at its last dot, and the result is
  empty when the segment has no dot, starts at its only dot, or is \<open>..\<close>.
\<close>

definition extname :: "string \<Rightarrow> string" where
  "extname p =
     (let base = rev (takeWhile (\<lambda>c. c \<noteq> CHR ''/'') (dropWhile (\<lambda>c. c = CHR ''/'') (rev p)));
          ext = rev (takeWhile (\<lambda>c. c \<noteq> CHR ''.'') (rev base))
      in if CHR ''.'' \<notin> set base then []
         else if length base = length ext + 1 then []
         else if base = ''..'' then []
         else CHR ''.'' # ext)"

definition toLowerChar :: "char \<Rightarrow> char" where
  "toLowerChar c =
     (case map_of (zip ''ABCDEFGHIJKLMNOPQRSTUVWXYZ'' ''abcdefghijklmnopqrstuvwxyz'') c of
        None \<Rightarrow> c
      | Some l \<Rightarrow> l)"

definition toLowerCase :: "string \<Rightarrow> string" where
  "toLowerCase s = map toLowerChar s"

definition languageMap :: "(string \<times> string) list" where
  "languageMap =
     [(''.js'', ''javascript''), (''.jsx'', ''javascript''), (''.ts'', ''typescript''),
      (''.tsx'', ''typescript''), (''.mjs'', ''javascript''), (''.cjs'', ''javascript''),
      (''.py'', ''python''), (''.pyw'', ''python'')]"

definition detectLanguage :: "string \<Rightarrow> string" where
  "detectLanguage filePath =
     (case map_of languageMap (toLowerCase (extname filePath)) of
        None \<Rightarrow> ''unknown''
      | Some l \<Rightarrow> l)"


section \<open>The metadata enricher (\<open>enrichChunkMetadata\<close>)\<close>

definition isCodeLine :: "string \<Rightarrow> bool" where
  "isCodeLine line =
     (let trimmed = trim line
      in trimmed \<noteq> [] \<and> \<not> startsWith trimmed ''//'' \<and> \<not> startsWith trimmed ''#''
         \<and> \<not> startsWith trimmed ''/*'' \<and> \<not> startsWith trimmed ''*'')"

definition calculateLOC :: "string \<Rightarrow> nat" where
  "calculateLOC src = length (filter isCodeLine (jsSplit nlc src))"

text \<open>
  The regular expressions of \<open>estimateComplexity\<close>.  A matcher is given the character
  before the position (for \<open>\b\<close>) and the rest of the string, and returns the length
  of the match that starts there.  \<open>content.match(/.../g)\<close> collects the matches from
  left to right, each search starting where the last match ended.
\<close>

definition isWordChar :: "char \<Rightarrow> bool" where
  "isWordChar c = (c \<in> set ''abcdefghijklmnopqrstuvwxyzABCDEFGHIJKLMNOPQRSTUVWXYZ0123456789_'')"

definition atWordStart :: "char option \<Rightarrow> bool" where
  "atWordStart prev = (case prev of None \<Rightarrow> True | Some p \<Rightarrow> \<not> isWordChar p)"

definition atWordEnd :: "string \<Rightarrow> bool" where
  "atWordEnd rest = (case rest of [] \<Rightarrow> True | c # _ \<Rightarrow> \<not> isWordChar c)"

text \<open>\<open>/\bw\b/\<close> for a keyword \<open>w\<close>.\<close>

definition matchWord :: "string \<Rightarrow> char option \<Rightarrow> string \<Rightarrow> nat option" where
  "matchWord w prev s =
     (if atWordStart prev \<and> startsWith s w \<and> atWordEnd (drop (length w) s)
      then Some (length w) else None)"

text \<open>\<open>/\belse\s+if\b/\<close>.\<close>

definition matchElseIf :: "char option \<Rightarrow> string \<Rightarrow> nat option" where
  "matchElseIf prev s =
     (let gap = takeWhile isSpace (drop 4 s);
          rest = dropWhile isSpace (drop 4 s)
      in if atWordStart prev \<and> startsWith s ''else'' \<and> gap \<noteq> [] \<and> startsWith rest ''if''
            \<and> atWordEnd (drop 2 rest)
         then Some (4 + length gap + 2) else None)"

text \<open>A literal: \<open>/&&/\<close>, \<open>/\|\|/\<close>, \<open>/\?/\<close>.\<close>

definition matchLiteral :: "string \<Rightarrow> char option \<Rightarrow> string \<Rightarrow> nat option" where
  "matchLiteral w prev s = (if startsWith s w then Some (length w) else None)"

fun countMatches :: "(char option \<Rightarrow> string \<Rightarrow> nat option) \<Rightarrow> char option \<Rightarrow> nat \<Rightarrow> string \<Rightarrow> nat" where
  "countMatches m prev skip [] = 0"
| "countMatches m prev skip (c # cs) =
     (if skip > 0 then countMatches m (Some c) (skip - 1) cs
      else (case m prev (c # cs) of
              None \<Rightarrow> countMatches m (Some c) 0 cs
            | Some len \<Rightarrow> 1 + countMatches m (Some c) (len - 1) cs))"

definition patterns :: "(char option \<Rightarrow> string \<Rightarrow> nat option) list" where
  "patterns =
     [matchWord ''if'', matchElseIf, matchWord ''else'', matchWord ''for'', matchWord ''while'',
      matchWord ''case'', matchWord ''catch'', matchWord ''try'', matchWord ''and'',
      matchWord ''or'', matchLiteral ''&&'', matchLiteral ''||'', matchLiteral ''?'']"

definition estimateComplexity :: "string \<Rightarrow> int" where
  "estimateComplexity src =
     min (1 + int (sum_list (map (\<lambda>m. countMatches m None 0 src) patterns))) 100"

definition isPublicName :: "string option \<Rightarrow> bool" where
  "isPublicName n = (case n of None \<Rightarrow> False | Some s \<Rightarrow> s \<noteq> [] \<and> \<not> startsWith s ''_'')"

text \<open>\<open>scoreChunk\<close>; \<open>Math.round\<close> of a number is the floor of the number plus one half.\<close>

definition scoreChunk :: "chunk \<Rightarrow> int" where
  "scoreChunk c =
     min \<lfloor>(5 :: real)
           + (if isExported c then 2 else 0)
           + (if isPublicName (name c) then 1 else 0)
           + (if ctype c = ''function'' then 1 else 0)
           + (if ctype c = ''class'' then 1 else 0)
           + (if truthy (docstring c) then 1 else 0)
           + (if isAsync c then 1 / 2 else 0)
           + (if isGenerator c then 1 / 2 else 0)
           + 1 / 2\<rfloor> 10"

text \<open>
  The record under \<open>metadata\<close>.  The keys \<open>name\<close>, \<open>signature\<close>, \<open>docstring\<close> and
  \<open>decorators\<close> carry the prefix \<open>meta_\<close> here, the names being taken by the chunk.
\<close>

record metadata =
  chunk_type :: string
  meta_name :: "string option"
  language :: string
  start_line :: int
  end_line :: int
  start_char :: int
  end_char :: int
  line_count :: int
  char_count :: nat
  is_partial :: bool
  part_number :: nat
  total_parts :: nat
  parent_chunk :: "string option"
  meta_signature :: "string option"
  has_docstring :: bool
  meta_docstring :: "string option"
  meta_decorators :: "string option"
  complexity_estimate :: int
  loc :: nat
  chunk_score :: int
  is_public :: bool
  is_exported :: bool
  is_async :: bool
  is_generator :: bool
  preview :: string

record enriched =
  e_content :: string
  metadata :: metadata

definition orNull :: "string option \<Rightarrow> string option" where
  "orNull v = (if truthy v then v else None)"

definition enrichChunkMetadata :: "chunk \<Rightarrow> string \<Rightarrow> string \<Rightarrow> bool \<Rightarrow> enriched" where
  "enrichChunkMetadata c fullContent filePath withComplexity =
     \<lparr> e_content = content c,
       metadata = \<lparr>
         chunk_type = ctype c,
         meta_name = name c,
         language = detectLanguage filePath,
         start_line = startLine c,
         end_line = endLine c,
         start_char = startChar c,
         end_char = endChar c,
         line_count = endLine c - startLine c + 1,
         char_count = length (content c),
         is_partial = isPartial c,
         part_number = (case partNumber c of None \<Rightarrow> 0 | Some n \<Rightarrow> n),
         total_parts = (case totalParts c of None \<Rightarrow> 1 | Some n \<Rightarrow> n),
         parent_chunk = orNull (parentChunk c),
         meta_signature = orNull (signature c),
         has_docstring = truthy (docstring c),
         meta_docstring = orNull (docstring c),
         meta_decorators = map_option (jsJoin '', '') (decorators c),
         complexity_estimate = (if withComplexity then estimateComplexity (content c) else 0),
         loc = calculateLOC (content c),
         chunk_score = scoreChunk c,
         is_public = isPublicName (name c),
         is_exported = isExported c,
         is_async = isAsync c,
         is_generator = isGenerator c,
         preview = trim (map (\<lambda>ch. if ch = nlc then CHR '' '' else ch) (substring (content c) 0 200)) \<rparr> \<rparr>"


section \<open>The structural parser for JavaScript and TypeScript (\<open>parseJavaScript\<close>)\<close>

text \<open>
  The syntax tree comes from the library \<open>acorn\<close>, which is not part of the repository:
  the parser takes \<open>parse\<close> as a parameter and reads of each top-level node what
  \<open>extractNodeInfo\<close> reads: \<open>start\<close>, \<open>end\<close>, \<open>loc.start.line\<close>,
  \<open>loc.end.line\<close>, the name of \<open>id\<close>, \<open>body.start\<close> and the flags.
\<close>

record span =
  n_start :: int
  n_end :: int
  n_startLine :: int
  n_endLine :: int

datatype init_kind = ArrowFunctionExpression | FunctionExpression | OtherExpression

text \<open>A declarator: the name of \<open>id\<close> (absent for a pattern), \<open>start\<close>, \<open>end\<close>,
  and of \<open>init\<close> its type and its \<open>async\<close> flag.\<close>

record declarator =
  d_name :: "string option"
  d_start :: int
  d_end :: int
  d_init :: "(init_kind \<times> bool) option"

datatype node =
    FunctionDeclaration span "string option" int bool bool
  | ClassDeclaration span "string option"
  | VariableDeclaration span "declarator list"
  | ExportNamedDeclaration "node option"
  | ExportDefaultDeclaration "node option"
  | OtherNode

definition idName :: "string option \<Rightarrow> string" where
  "idName i = (case i of None \<Rightarrow> ''anonymous'' | Some n \<Rightarrow> n)"

definition extractSignature :: "span \<Rightarrow> int \<Rightarrow> string \<Rightarrow> string" where
  "extractSignature p bodyStart code = trim (substring code (n_start p) bodyStart)"

text \<open>\<open>declText.split('{')[0]\<close> is the text before the first brace.\<close>

definition extractArrowSignature :: "declarator \<Rightarrow> string \<Rightarrow> string" where
  "extractArrowSignature d code =
     trim (takeWhile (\<lambda>c. c \<noteq> CHR ''{'') (substring code (d_start d) (d_end d))) @ '' {...}''"

text \<open>
  The backward loop of \<open>extractJSDoc\<close> over the indices \<open>is\<close>.  A line number of the
  tree beyond the lines that \<open>split('\n')\<close> gives reads \<open>undefined\<close>.
\<close>

fun jsDocScan :: "string list \<Rightarrow> int \<Rightarrow> int list \<Rightarrow> js_error + string option" where
  "jsDocScan lines declLine [] = Inr None"
| "jsDocScan lines declLine (i # is) =
     (if int (length lines) \<le> i then Inl TypeError
      else if startsWith (trim (lines ! nat i)) ''/**'' then
        Inr (Some (trim (jsJoin nl
          (map (\<lambda>j. if j < length lines then lines ! j else []) [nat i ..< nat (declLine - 1)]))))
      else if trim (lines ! nat i) \<noteq> [] \<and> \<not> startsWith (trim (lines ! nat i)) ''*''
              \<and> \<not> startsWith (trim (lines ! nat i)) ''//'' then Inr None
      else jsDocScan lines declLine is)"

definition extractJSDoc :: "string list \<Rightarrow> int \<Rightarrow> js_error + string option" where
  "extractJSDoc lines declLine =
     jsDocScan lines declLine (rev [max 0 (declLine - 10) .. declLine - 2])"

text \<open>The first declarator whose initializer is a function or arrow expression.\<close>

fun functionDeclarator :: "declarator list \<Rightarrow> (declarator \<times> bool) option" where
  "functionDeclarator [] = None"
| "functionDeclarator (d # ds) =
     (case d_init d of
        Some (ArrowFunctionExpression, a) \<Rightarrow> Some (d, a)
      | Some (FunctionExpression, a) \<Rightarrow> Some (d, a)
      | _ \<Rightarrow> functionDeclarator ds)"

definition declarationChunk :: "string \<Rightarrow> string option \<Rightarrow> span \<Rightarrow> string \<Rightarrow> chunk" where
  "declarationChunk t n p code =
     (bareChunk t [] (n_startLine p) (n_endLine p) (n_start p) (n_end p)
        (substring code (n_start p) (n_end p))) \<lparr> name := n \<rparr>"

fun extractNodeInfo :: "node \<Rightarrow> string \<Rightarrow> string list \<Rightarrow> js_error + chunk option" where
  "extractNodeInfo (FunctionDeclaration p i bodyStart async generator) code lines =
     (case extractJSDoc lines (n_startLine p) of
        Inl e \<Rightarrow> Inl e
      | Inr doc \<Rightarrow> Inr (Some ((declarationChunk ''function'' (Some (idName i)) p code)
          \<lparr> signature := Some (extractSignature p bodyStart code), docstring := doc,
            isAsync := async, isGenerator := generator \<rparr>)))"
| "extractNodeInfo (ClassDeclaration p i) code lines =
     (case extractJSDoc lines (n_startLine p) of
        Inl e \<Rightarrow> Inl e
      | Inr doc \<Rightarrow> Inr (Some ((declarationChunk ''class'' (Some (idName i)) p code)
          \<lparr> signature := Some (''class '' @ idName i), docstring := doc \<rparr>)))"
| "extractNodeInfo (VariableDeclaration p ds) code lines =
     (case functionDeclarator ds of
        None \<Rightarrow> Inr None
      | Some (d, a) \<Rightarrow>
          (case extractJSDoc lines (n_startLine p) of
             Inl e \<Rightarrow> Inl e
           | Inr doc \<Rightarrow> Inr (Some ((declarationChunk ''function'' (d_name d) p code)
               \<lparr> signature := Some (extractArrowSignature d code), docstring := doc,
                 isAsync := a \<rparr>))))"
| "extractNodeInfo (ExportNamedDeclaration None) code lines = Inr None"
| "extractNodeInfo (ExportNamedDeclaration (Some d)) code lines =
     (case extractNodeInfo d code lines of
        Inl e \<Rightarrow> Inl e
      | Inr None \<Rightarrow> Inr None
      | Inr (Some c) \<Rightarrow> Inr (Some (c\<lparr> isExported := True \<rparr>)))"
| "extractNodeInfo (ExportDefaultDeclaration None) code lines = Inr None"
| "extractNodeInfo (ExportDefaultDeclaration (Some d)) code lines =
     (case extractNodeInfo d code lines of
        Inl e \<Rightarrow> Inl e
      | Inr None \<Rightarrow> Inr None
      | Inr (Some c) \<Rightarrow> Inr (Some (c\<lparr> isExported := True \<rparr>)))"
| "extractNodeInfo OtherNode code lines = Inr None"

text \<open>The whole file as one chunk, under the name \<open>n\<close>.\<close>

definition wholeFile :: "string \<Rightarrow> string \<Rightarrow> chunk" where
  "wholeFile n code =
     bareChunk ''other'' n 1 (int (length (jsSplit nlc code))) 0 (int (length code)) code"

text \<open>The loop over \<open>ast.body\<close>: the chunks pushed, and the exception that ended it.\<close>

fun walkBody :: "node list \<Rightarrow> string \<Rightarrow> string list \<Rightarrow> chunk list \<Rightarrow> chunk list \<times> js_error option" where
  "walkBody [] code lines acc = (acc, None)"
| "walkBody (n # ns) code lines acc =
     (case extractNodeInfo n code lines of
        Inl e \<Rightarrow> (acc, Some e)
      | Inr None \<Rightarrow> walkBody ns code lines acc
      | Inr (Some c) \<Rightarrow> walkBody ns code lines (acc @ [c]))"

text \<open>
  \<open>parseJavaScript\<close>: the \<open>catch\<close> block pushes the whole file after whatever the
  \<open>try\<close> block has pushed, and nothing is thrown to the caller.
\<close>

definition parseJavaScript :: "(string \<Rightarrow> js_error + node list) \<Rightarrow> string \<Rightarrow> string \<Rightarrow> chunk list" where
  "parseJavaScript parse code filePath =
     (case parse code of
        Inl e \<Rightarrow> [wholeFile ''unparseable'' code]
      | Inr body \<Rightarrow>
          (case walkBody body code (jsSplit nlc code) [] of
             (chunks, Some e) \<Rightarrow> chunks @ [wholeFile ''unparseable'' code]
           | (chunks, None) \<Rightarrow> if chunks = [] then [wholeFile ''module'' code] else chunks))"


section \<open>The structural parser for Python (\<open>parsePython\<close>)\<close>

text \<open>
  The matches of the two regular expressions come from the JavaScript engine: the
  parser takes them as parameters, a match with its index and its groups.
\<close>

record function_match =
  fm_index :: nat
  fm_indent :: string
  fm_decorators :: "string option"
  fm_async :: bool
  fm_name :: string
  fm_params :: string

record class_match =
  cm_index :: nat
  cm_indent :: string
  cm_name :: string
  cm_bases :: "string option"

text \<open>The loop of \<open>findPythonBlockEnd\<close> over the lines after the header.\<close>

fun blockEnd :: "string list \<Rightarrow> nat \<Rightarrow> nat \<Rightarrow> nat" where
  "blockEnd [] baseIndent e = e"
| "blockEnd (l # ls) baseIndent e =
     (if trim l = [] \<or> startsWith (trim l) ''#'' then blockEnd ls baseIndent (e + 1)
      else if length l - length (trimStart l) \<le> baseIndent then e
      else blockEnd ls baseIndent (e + 1))"

definition findPythonBlockEnd :: "string list \<Rightarrow> nat \<Rightarrow> nat \<Rightarrow> nat \<times> nat" where
  "findPythonBlockEnd lines headerLine baseIndent =
     (let e = blockEnd (drop (headerLine + 1) lines) baseIndent (headerLine + 1)
      in (e, length (jsJoin nl (jsSlice lines 0 (int e)))))"

text \<open>The inner loop of \<open>extractPythonDocstring\<close>: the lines up to the closing quotes.\<close>

fun docTail :: "string \<Rightarrow> string list \<Rightarrow> string list \<Rightarrow> string option" where
  "docTail quote acc [] = None"
| "docTail quote acc (l # ls) =
     (if endsWith (trim l) quote then Some (trim (jsJoin nl (acc @ [l])))
      else docTail quote (acc @ [l]) ls)"

text \<open>The outer loop, over at most \<open>k\<close> lines.\<close>

fun docScan :: "nat \<Rightarrow> string list \<Rightarrow> string option" where
  "docScan 0 ls = None"
| "docScan (Suc k) [] = None"
| "docScan (Suc k) (l # ls) =
     (if startsWith (trim l) (replicate 3 (CHR 0x22)) \<or> startsWith (trim l) (replicate 3 (CHR 0x27)) then
        (if endsWith (trim l) (take 3 (trim l)) \<and> length (trim l) > 6
         then Some (trim (substring (trim l) 3 (int (length (trim l)) - 3)))
         else docTail (take 3 (trim l)) [trim l] ls)
      else if trim l \<noteq> [] \<and> \<not> startsWith (trim l) ''#'' then None
      else docScan k ls)"

definition extractPythonDocstring :: "string list \<Rightarrow> nat \<Rightarrow> string option" where
  "extractPythonDocstring lines headerLine = docScan 5 (drop headerLine lines)"

definition lineOf :: "string \<Rightarrow> nat \<Rightarrow> nat" where
  "lineOf code pos = length (jsSplit nlc (substring code 0 (int pos)))"

definition functionChunk :: "string \<Rightarrow> string list \<Rightarrow> function_match \<Rightarrow> chunk" where
  "functionChunk code lines m =
     (let ln = lineOf code (fm_index m);
          endInfo = findPythonBlockEnd lines (ln - 1) (length (fm_indent m))
      in (bareChunk ''function'' (fm_name m) (int ln) (int (fst endInfo))
            (int (fm_index m)) (int (snd endInfo))
            (substring code (int (fm_index m)) (int (snd endInfo))))
         \<lparr> signature := Some ((if fm_async m then ''async '' else []) @ ''def '' @ fm_name m
                              @ ''('' @ fm_params m @ '')''),
           docstring := extractPythonDocstring lines ln,
           decorators := Some (case fm_decorators m of
                None \<Rightarrow> []
              | Some d \<Rightarrow> if d = [] then []
                          else filter (\<lambda>x. x \<noteq> []) (map trim (jsSplit nlc (trim d)))),
           isAsync := fm_async m \<rparr>)"

definition classChunk :: "string \<Rightarrow> string list \<Rightarrow> class_match \<Rightarrow> chunk" where
  "classChunk code lines m =
     (let ln = lineOf code (cm_index m);
          endInfo = findPythonBlockEnd lines (ln - 1) (length (cm_indent m))
      in (bareChunk ''class'' (cm_name m) (int ln) (int (fst endInfo))
            (int (cm_index m)) (int (snd endInfo))
            (substring code (int (cm_index m)) (int (snd endInfo))))
         \<lparr> signature := Some (''class '' @ cm_name m
                              @ (case cm_bases m of
                                   None \<Rightarrow> []
                                 | Some b \<Rightarrow> if b = [] then [] else ''('' @ b @ '')'')),
           docstring := extractPythonDocstring lines ln \<rparr>)"

definition parsePython :: "function_match list \<Rightarrow> class_match list \<Rightarrow> string \<Rightarrow> string \<Rightarrow> chunk list" where
  "parsePython fms cms code filePath =
     (let lines = jsSplit nlc code;
          chunks = map (functionChunk code lines) fms @ map (classChunk code lines) cms
      in sort_key startChar (if chunks = [] then [wholeFile ''module'' code] else chunks))"


section \<open>The engine (\<open>extractChunks\<close>, \<open>intelligentChunk\<close>)\<close>

text \<open>What the repository takes from outside: the parser library, the matches of the
  two regular expressions of \<open>parsePython\<close> on a source, and the double arithmetic of
  \<open>splitWithOverlap\<close>, \<open>floorQuotient x len n = Math.floor(x / (len / n))\<close>.\<close>

record externals =
  acornParse :: "string \<Rightarrow> js_error + node list"
  functionMatches :: "string \<Rightarrow> function_match list"
  classMatches :: "string \<Rightarrow> class_match list"
  floorQuotient :: "nat \<Rightarrow> nat \<Rightarrow> nat \<Rightarrow> nat"

definition extractChunks :: "externals \<Rightarrow> string \<Rightarrow> string \<Rightarrow> chunk list" where
  "extractChunks ext code filePath =
     (let lang = detectLanguage filePath
      in if lang = ''javascript'' \<or> lang = ''typescript'' then parseJavaScript (acornParse ext) code filePath
         else if lang = ''python'' then parsePython (functionMatches ext code) (classMatches ext code) code filePath
         else [wholeFile ''unknown'' code])"

text \<open>
  An element of the array that \<open>intelligentChunk\<close> returns: a chunk as \<open>simpleChunk\<close>
  built it, or the object \<open>{content, metadata}\<close> of \<open>enrichChunkMetadata\<close>.
\<close>

datatype out_chunk = Plain chunk | Enriched enriched

text \<open>The loop over the parsed chunks.\<close>

fun chunkAll :: "(nat \<Rightarrow> nat \<Rightarrow> nat \<Rightarrow> nat) \<Rightarrow> nat \<Rightarrow> options \<Rightarrow> string \<Rightarrow> string \<Rightarrow> string \<Rightarrow> chunk list \<Rightarrow> out_chunk list
    \<Rightarrow> (unit, out_chunk list) outcome" where
  "chunkAll fq fuel opts lang src filePath [] finalChunks = Returned finalChunks"
| "chunkAll fq fuel opts lang src filePath (c # cs) finalChunks =
     (if length (content c) \<le> maxChunkSize opts then
        chunkAll fq fuel opts lang src filePath cs
          (finalChunks @ [Enriched (enrichChunkMetadata c src filePath (calculateComplexity opts))])
      else
        (case splitWithOverlap fq fuel c opts lang of
           Returned splitChunks \<Rightarrow>
             chunkAll fq fuel opts lang src filePath cs
               (finalChunks @ map (\<lambda>x. Enriched (enrichChunkMetadata x src filePath (calculateComplexity opts)))
                                  splitChunks)
         | Threw e \<Rightarrow> Threw e
         | Running st \<Rightarrow> Running ()))"

definition intelligentChunk :: "externals \<Rightarrow> nat \<Rightarrow> string \<Rightarrow> string \<Rightarrow> options \<Rightarrow> (unit, out_chunk list) outcome" where
  "intelligentChunk ext fuel src filePath opts =
     (let lang = detectLanguage filePath
      in if lang = ''unknown'' then
           (case simpleChunk fuel src opts of
              Returned chunks \<Rightarrow> Returned (map Plain chunks)
            | Threw e \<Rightarrow> Threw e
            | Running st \<Rightarrow> Running ())
         else chunkAll (floorQuotient ext) fuel opts lang src filePath (extractChunks ext src filePath) [])"


section \<open>Reading a result\<close>

text \<open>What a caller reads off a result: the array returned, and of an element its
  content, its offsets and its complexity estimate (a plain chunk has none).\<close>

definition returned :: "('s, 'a list) outcome \<Rightarrow> 'a list" where
  "returned r = (case r of Returned xs \<Rightarrow> xs | Threw e \<Rightarrow> [] | Running s \<Rightarrow> [])"

definition contentOf :: "out_chunk \<Rightarrow> string" where
  "contentOf x = (case x of Plain c \<Rightarrow> content c | Enriched e \<Rightarrow> e_content e)"

definition offsetsOf :: "out_chunk \<Rightarrow> int \<times> int" where
  "offsetsOf x =
     (case x of
        Plain c \<Rightarrow> (startChar c, endChar c)
      | Enriched e \<Rightarrow> (start_char (metadata e), end_char (metadata e)))"

definition complexityOf :: "out_chunk \<Rightarrow> int option" where
  "complexityOf x = (case x of Plain c \<Rightarrow> None | Enriched e \<Rightarrow> Some (complexity_estimate (metadata e)))"

text \<open>The sub-chunks that \<open>splitWithOverlap\<close> has pushed when its run stands at \<open>r\<close>.\<close>

definition builtChunks :: "(split_state, chunk list) outcome \<Rightarrow> chunk list" where
  "builtChunks r = (case r of Returned cs \<Rightarrow> cs | Threw e \<Rightarrow> [] | Running st \<Rightarrow> s_chunks st)"

text \<open>The half-open range \<open>source[a:b]\<close> of the specification, for \<open>0 \<le> a \<le> b \<le> len(source)\<close>.\<close>

definition sourceRange :: "string \<Rightarrow> int \<Rightarrow> int \<Rightarrow> string" where
  "sourceRange src a b = take (nat (b - a)) (drop (nat a) src)"

text \<open>A chunk lies in its source: the offsets are in order and inside the source, and
  the content is the range.\<close>

definition inSource :: "string \<Rightarrow> chunk \<Rightarrow> bool" where
  "inSource src c =
     (0 \<le> startChar c \<and> startChar c \<le> endChar c \<and> endChar c \<le> int (length src)
      \<and> content c = sourceRange src (startChar c) (endChar c))"

text \<open>A chunk keeps to its source: it lies in it, and its range is not empty unless the
  source is.\<close>

definition keepsToSource :: "string \<Rightarrow> chunk \<Rightarrow> bool" where
  "keepsToSource src c =
     (0 \<le> startChar c \<and> startChar c \<le> endChar c \<and> endChar c \<le> int (length src)
      \<and> (src = [] \<or> startChar c < endChar c)
      \<and> content c = sourceRange src (startChar c) (endChar c))"

text \<open>
  What the syntax tree of a source promises: a declaration that \<open>extractNodeInfo\<close>
  turns into a chunk spans a range of the source that is not empty.
\<close>

definition spanWithin :: "string \<Rightarrow> span \<Rightarrow> bool" where
  "spanWithin code p = (0 \<le> n_start p \<and> n_start p < n_end p \<and> n_end p \<le> int (length code))"

fun nodeWithin :: "string \<Rightarrow> node \<Rightarrow> bool" where
  "nodeWithin code (FunctionDeclaration p i bodyStart async generator) = spanWithin code p"
| "nodeWithin code (ClassDeclaration p i) = spanWithin code p"
| "nodeWithin code (VariableDeclaration p ds) = spanWithin code p"
| "nodeWithin code (ExportNamedDeclaration None) = True"
| "nodeWithin code (ExportNamedDeclaration (Some d)) = nodeWithin code d"
| "nodeWithin code (ExportDefaultDeclaration None) = True"
| "nodeWithin code (ExportDefaultDeclaration (Some d)) = nodeWithin code d"
| "nodeWithin code OtherNode = True"

definition treeWithin :: "(string \<Rightarrow> js_error + node list) \<Rightarrow> string \<Rightarrow> bool" where
  "treeWithin parse code =
     (case parse code of Inl e \<Rightarrow> True | Inr body \<Rightarrow> list_all (nodeWithin code) body)"

text \<open>What the matches of the two Python patterns promise: a match starts inside the
  source.\<close>

definition matchesWithin :: "externals \<Rightarrow> string \<Rightarrow> bool" where
  "matchesWithin ext code =
     (list_all (\<lambda>m. fm_index m \<le> length code) (functionMatches ext code)
      \<and> list_all (\<lambda>m. cm_index m \<le> length code) (classMatches ext code))"


section \<open>Example inputs\<close>

text \<open>
  The double arithmetic on the sizes of the examples:
  \<open>Math.floor(20 / (28 / 3)) = Math.floor(2.142...) = 2\<close>,
  \<open>Math.floor(20 / (69 / 7)) = Math.floor(2.028...) = 2\<close>, and
  \<open>Math.floor(0 / a) = 0\<close>.  No other size reaches it in the examples.
\<close>

definition exampleQuotient :: "nat \<Rightarrow> nat \<Rightarrow> nat \<Rightarrow> nat" where
  "exampleQuotient x len n =
     (if x = 20 \<and> len = 28 \<and> n = 3 then 2
      else if x = 20 \<and> len = 69 \<and> n = 7 then 2
      else 0)"

text \<open>
  A file of three lines that holds one function, the tree that the parser library
  gives for it, and the chunk that \<open>parseJavaScript\<close> makes of it.
\<close>

definition exampleSource :: string where
  "exampleSource = ''function f() {'' @ nl @ ''  return 1;'' @ nl @ ''}''"

definition exampleTree :: externals where
  "exampleTree = \<lparr> acornParse = (\<lambda>_. Inr [FunctionDeclaration
        \<lparr> n_start = 0, n_end = 28, n_startLine = 1, n_endLine = 3 \<rparr> (Some ''f'') 13 False False]),
     functionMatches = (\<lambda>_. []), classMatches = (\<lambda>_. []),
     floorQuotient = exampleQuotient \<rparr>"

definition exampleFunction :: chunk where
  "exampleFunction = \<lparr> ctype = ''function'', name = Some ''f'', startLine = 1, endLine = 3,
     startChar = 0, endChar = 28, content = exampleSource,
     signature = Some ''function f()'', docstring = None, decorators = None,
     isAsync = False, isGenerator = False, isExported = False, isPartial = False,
     partNumber = None, totalParts = None, parentChunk = None \<rparr>"

text \<open>A function of seven lines below a one-line documentation comment, with a blank
  line before the closing brace.\<close>

definition exampleLong :: chunk where
  "exampleLong = \<lparr> ctype = ''function'', name = Some ''g'', startLine = 2, endLine = 8,
     startChar = 18, endChar = 87,
     content = jsJoin nl [''function g() {'', ''  a = a + 1;'', ''  a = a + 1;'', ''  a = a + 1;'',
                          ''  a = a + 1;'', [], ''}''],
     signature = Some ''function g()'', docstring = Some ''/** Adds four. */'', decorators = None,
     isAsync = False, isGenerator = False, isExported = False, isPartial = False,
     partNumber = None, totalParts = None, parentChunk = None \<rparr>"

definition smallOptions :: options where
  "smallOptions = defaultOptions\<lparr> maxChunkSize := 20, overlap := 0 \<rparr>"

text \<open>The externals on a source that the parser library rejects and that holds no Python
  header.\<close>

definition rejecting :: externals where
  "rejecting = \<lparr> acornParse = (\<lambda>_. Inl (SyntaxError ''Unexpected token'')),
     functionMatches = (\<lambda>_. []), classMatches = (\<lambda>_. []),
     floorQuotient = exampleQuotient \<rparr>"

text \<open>
  A Python source whose first line is blank.  The header pattern begins with
  \<open>^(\s*)\<close>, and \<open>\s\<close> matches a line break: the match of the header on the
  second line starts at index 0, with the line break as its indent.
\<close>

definition blankLineSource :: string where
  "blankLineSource = nl @ ''def f(): pass''"

definition blankLineMatch :: function_match where
  "blankLineMatch = \<lparr> fm_index = 0, fm_indent = nl, fm_decorators = None, fm_async = False,
     fm_name = ''f'', fm_params = [] \<rparr>"


section \<open>The shape of a sub-chunk\<close>

text \<open>
  What the splitter's loop keeps true of the \<open>i\<close>-th sub-chunk \<open>x\<close> that it pushes for
  the chunk \<open>c\<close>: the part number is the position, the parent is named, only part 0
  carries the documentation, and the content is a run of at most \<open>lpc + 9\<close> lines of
  \<open>c\<close> below the signature line.
\<close>

definition partOf :: "chunk \<Rightarrow> string list \<Rightarrow> bool \<Rightarrow> int \<Rightarrow> nat \<Rightarrow> chunk \<Rightarrow> bool" where
  "partOf c lines ks lpc i x =
     (isPartial x \<and> partNumber x = Some i \<and> parentChunk x = name c
      \<and> docstring x = (if i = 0 then docstring c else None)
      \<and> (\<exists>cur sp. content x = jsJoin nl (signatureLine c ks i @ jsSlice lines cur sp)
            \<and> int (length (jsSlice lines cur sp)) \<le> lpc + 9))"


section \<open>Splitting into lines and joining them\<close>

lemma jsSplit_nonempty: "jsSplit sep s \<noteq> []"
  by (induction s) (auto split: list.splits)

lemma jsSplit_cons: "\<exists>l ls. jsSplit sep s = l # ls"
  by (cases "jsSplit sep s") (simp_all add: jsSplit_nonempty)

lemma jsJoin_cons_head: "jsJoin sep ((c # l) # xs) = c # jsJoin sep (l # xs)"
  by (cases xs) simp_all

lemma join_take_prefix:
  "take (length (jsJoin [sep] (take k (jsSplit sep s)))) s = jsJoin [sep] (take k (jsSplit sep s))"
proof (induction s arbitrary: k)
  case Nil
  show ?case by (cases k) simp_all
next
  case (Cons c cs)
  obtain l ls where sp: "jsSplit sep cs = l # ls" using jsSplit_cons by blast
  show ?case
  proof (cases k)
    case 0
    then show ?thesis by simp
  next
    case (Suc j)
    show ?thesis
    proof (cases "c = sep")
      case True
      show ?thesis
      proof (cases "take j (jsSplit sep cs)")
        case Nil
        have "take k (jsSplit sep (c # cs)) = [] # take j (jsSplit sep cs)"
          using True Suc by simp
        then have "jsJoin [sep] (take k (jsSplit sep (c # cs))) = []"
          unfolding Nil by simp
        then show ?thesis by simp
      next
        case (Cons y ys)
        with True Suc Cons.IH [of j] show ?thesis by simp
      qed
    next
      case False
      have j: "jsJoin [sep] (take (Suc j) (jsSplit sep (c # cs))) = c # jsJoin [sep] (take (Suc j) (jsSplit sep cs))"
        using False sp by (simp add: jsJoin_cons_head)
      with Cons.IH [of "Suc j"] Suc show ?thesis by simp
    qed
  qed
qed

lemma jsSlice_from_0: "0 \<le> sp \<Longrightarrow> jsSlice xs 0 sp = take (nat sp) xs"
  by (simp add: jsSlice_def sliceIndex_def Let_def min_def)

text \<open>The first \<open>k\<close> lines of a string, joined, are no longer than the string.\<close>

lemma join_take_le: "length (jsJoin [sep] (take k (jsSplit sep s))) \<le> length s"
proof -
  have "length (take (length (jsJoin [sep] (take k (jsSplit sep s)))) s)
      = length (jsJoin [sep] (take k (jsSplit sep s)))"
    by (simp only: join_take_prefix)
  then show ?thesis by simp
qed

lemma length_jsJoin_Cons:
  "length (jsJoin sep (x # zs)) = length x + (if zs = [] then 0 else length sep + length (jsJoin sep zs))"
  by (cases zs) simp_all

lemma length_join_take_mono:
  "k \<le> k' \<Longrightarrow> length (jsJoin sep (take k xs)) \<le> length (jsJoin sep (take k' xs))"
proof (induction xs arbitrary: k k')
  case Nil
  then show ?case by simp
next
  case (Cons x xs)
  show ?case
  proof (cases k)
    case 0
    then show ?thesis by simp
  next
    case (Suc j)
    with Cons.prems obtain j' where k': "k' = Suc j'" and jj: "j \<le> j'"
      by (cases k') auto
    from Cons.IH [OF jj] have ih: "length (jsJoin sep (take j xs)) \<le> length (jsJoin sep (take j' xs))" .
    have "take j xs \<noteq> [] \<Longrightarrow> take j' xs \<noteq> []"
      using jj by (cases xs; cases j; cases j') auto
    with ih show ?thesis
      unfolding Suc k' by (auto simp: length_jsJoin_Cons simp del: jsJoin.simps)
  qed
qed

text \<open>A position of a string is not beyond the end of the line that holds it.\<close>

lemma index_le_line_end:
  "idx \<le> length code \<Longrightarrow>
     idx \<le> length (jsJoin [sep] (take (length (jsSplit sep (take idx code))) (jsSplit sep code)))"
proof (induction code arbitrary: idx)
  case Nil
  then show ?case by simp
next
  case (Cons c cs)
  show ?case
  proof (cases idx)
    case 0
    then show ?thesis by simp
  next
    case (Suc j)
    with Cons.prems have j: "j \<le> length cs" by simp
    let ?L = "length (jsSplit sep (take j cs))"
    obtain L' where L: "?L = Suc L'"
      using jsSplit_nonempty [of sep "take j cs"] by (cases ?L) auto
    from Cons.IH [OF j] have ih: "j \<le> length (jsJoin [sep] (take ?L (jsSplit sep cs)))" .
    obtain l ls where sp: "jsSplit sep cs = l # ls" using jsSplit_cons by blast
    obtain l' ls' where sp': "jsSplit sep (take j cs) = l' # ls'" using jsSplit_cons by blast
    show ?thesis
    proof (cases "c = sep")
      case True
      have "length (jsSplit sep (take idx (c # cs))) = Suc ?L"
        using True Suc by simp
      moreover have "take (Suc ?L) (jsSplit sep (c # cs)) = [] # take ?L (jsSplit sep cs)"
        using True by simp
      moreover have "take ?L (jsSplit sep cs) \<noteq> []"
        using L sp by simp
      ultimately show ?thesis
        using ih Suc by (simp add: length_jsJoin_Cons del: jsJoin.simps)
    next
      case False
      have 1: "length (jsSplit sep (take idx (c # cs))) = ?L"
        using False Suc sp' by simp
      have "take ?L (jsSplit sep (c # cs)) = (c # l) # take L' ls"
        using False sp L by simp
      then have "jsJoin [sep] (take ?L (jsSplit sep (c # cs))) = c # jsJoin [sep] (take ?L (jsSplit sep cs))"
        using sp L by (simp add: jsJoin_cons_head)
      with ih 1 Suc show ?thesis by simp
    qed
  qed
qed

section \<open>The splitter's loop never leaves\<close>

lemma scoreCodeLine_pos: "1 \<le> scoreCodeLine t"
  by (simp add: scoreCodeLine_def)

lemma scoreSplitPoint_pos: "1 \<le> scoreSplitPoint line lang"
  by (simp add: scoreSplitPoint_def Let_def scoreCodeLine_pos)

lemma scanWindow_range:
  "scanWindow lines lang k i bs bl = Inr r \<Longrightarrow> r = bl \<or> (i \<le> r \<and> r < i + int k)"
proof (induction k arbitrary: i bs bl)
  case 0
  then show ?case by simp
next
  case (Suc k)
  show ?case
  proof (cases "i < 0 \<or> int (length lines) \<le> i")
    case True
    with Suc.prems show ?thesis by simp
  next
    case False
    show ?thesis
    proof (cases "scoreSplitPoint (lines ! nat i) lang > bs")
      case True
      with False Suc.prems
      have "scanWindow lines lang k (i + 1) (scoreSplitPoint (lines ! nat i) lang) i = Inr r"
        by simp
      from Suc.IH [OF this] show ?thesis by auto
    next
      case no: False
      with False Suc.prems have "scanWindow lines lang k (i + 1) bs bl = Inr r"
        by simp
      from Suc.IH [OF this] show ?thesis by auto
    qed
  qed
qed

text \<open>Every score is above the initial \<open>bestScore = -1\<close>, so a window that is not
  empty moves \<open>bestLine\<close> inside the window.\<close>

lemma scanWindow_first:
  assumes "scanWindow lines lang (Suc k) i bs bl = Inr r" and "bs < 1"
  shows "0 \<le> i \<and> i \<le> r \<and> r < i + int (Suc k)"
proof -
  have inb: "\<not> (i < 0 \<or> int (length lines) \<le> i)"
    using assms(1) by (auto split: if_splits)
  have "scoreSplitPoint (lines ! nat i) lang > bs"
    using scoreSplitPoint_pos [of "lines ! nat i" lang] assms(2) by linarith
  with inb assms(1)
  have "scanWindow lines lang k (i + 1) (scoreSplitPoint (lines ! nat i) lang) i = Inr r"
    by simp
  from scanWindow_range [OF this] inb show ?thesis by auto
qed

text \<open>The split point is an index of the array: it is never \<open>lines.length\<close>.\<close>

lemma findOptimalSplitPoint_below:
  assumes "findOptimalSplitPoint lines fromLine e lang = Inr r"
    and "fromLine < int (length lines)" and "e \<le> int (length lines)"
  shows "r < int (length lines)"
proof -
  let ?a = "max fromLine (e - 10)"
  let ?b = "min (int (length lines)) (e + 10)"
  from assms(1) have run: "scanWindow lines lang (nat (?b - ?a)) ?a (- 1) e = Inr r"
    by (simp add: findOptimalSplitPoint_def Let_def)
  show ?thesis
  proof (cases "nat (?b - ?a)")
    case 0
    with run have "r = e" by simp
    moreover from 0 have "?b \<le> ?a" by simp
    ultimately show ?thesis using assms(2,3) by (auto simp: min_def max_def split: if_splits)
  next
    case (Suc k)
    with run have "scanWindow lines lang (Suc k) ?a (- 1) e = Inr r" by simp
    from scanWindow_first [OF this] have "r < ?a + int (Suc k)" by simp
    also from Suc have "?a + int (Suc k) = ?b" by linarith
    finally show ?thesis by simp
  qed
qed

text \<open>
  With \<open>splitPoint < lines.length\<close> the test \<open>currentLine >= lines.length - overlapLines\<close>
  after \<open>currentLine = splitPoint - overlapLines\<close> is never true, and the loop
  condition \<open>currentLine < lines.length\<close> is never false.
\<close>

lemma splitLoop_never_returns:
  "s_currentLine st < int (length lines) \<Longrightarrow> 0 \<le> ov
   \<Longrightarrow> splitLoop fuel c lines lpc ov ks lang st \<noteq> Returned out"
proof (induction fuel arbitrary: st)
  case 0
  then show ?case by simp
next
  case (Suc fuel)
  let ?e = "min (s_currentLine st + lpc) (int (length lines))"
  show ?case
  proof (cases "findOptimalSplitPoint lines (s_currentLine st) ?e lang")
    case (Inl err)
    with Suc.prems show ?thesis by simp
  next
    case (Inr sp)
    from findOptimalSplitPoint_below [OF Inr Suc.prems(1)]
    have sp: "sp < int (length lines)" by simp
    let ?st' = "\<lparr> s_currentLine = sp - ov, s_partNumber = s_partNumber st + 1,
        s_chunks = s_chunks st @ [subChunk c lines ks (s_currentLine st) sp (s_partNumber st)] \<rparr>"
    from sp Suc.prems(2) have "s_currentLine ?st' < int (length lines)" by simp
    from Suc.IH [OF this Suc.prems(2)] Inr sp Suc.prems(1) show ?thesis by simp
  qed
qed

lemma splitWithOverlap_no_return:
  "splitWithOverlap fq fuel c opts lang \<noteq> Returned out"
proof -
  have "(0::int) < int (length (jsSplit nlc (content c)))"
    using jsSplit_nonempty [of nlc "content c"] by simp
  then have "splitLoop fuel c (jsSplit nlc (content c)) lpc (int ov) ks lang
      \<lparr> s_currentLine = 0, s_partNumber = 0, s_chunks = [] \<rparr> \<noteq> Returned out'" for lpc ov ks out'
    by (intro splitLoop_never_returns) simp_all
  then show ?thesis
    by (auto simp: splitWithOverlap_def Let_def split: outcome.splits)
qed

text \<open>
  C1.  The claim: for every chunk whose content is longer than \<open>maxSize\<close> the oversize
  splitter terminates.  The code does the opposite: for every such chunk, every
  language and every number of iterations, \<open>splitWithOverlap\<close> has not returned;
  it has thrown or is still in its loop.
\<close>

theorem splitWithOverlap_never_returns:
  "maxChunkSize opts < length (content c) \<Longrightarrow> splitWithOverlap fq fuel c opts lang \<noteq> Returned out"
  by (rule splitWithOverlap_no_return)

text \<open>
  On the three-line function with \<open>maxChunkSize = 20\<close> and no overlap, the second
  iteration finds the split point 2 from the current line 2, and so does every
  iteration after it: the run is in its loop after any number of iterations.
\<close>

lemma example_stuck:
  "\<exists>st. splitLoop fuel exampleFunction [''function f() {'', ''  return 1;'', ''}''] 2 0 True ''javascript''
          \<lparr> s_currentLine = 2, s_partNumber = p, s_chunks = cs \<rparr> = Running st \<and> s_currentLine st = 2"
proof (induction fuel arbitrary: p cs)
  case 0
  show ?case by simp
next
  case (Suc fuel)
  have "findOptimalSplitPoint [''function f() {'', ''  return 1;'', ''}''] 2
          (min (2 + 2) (int (length [''function f() {'', ''  return 1;'', ''}'']))) ''javascript'' = Inr 2"
    by code_simp
  with Suc show ?case by simp
qed

lemma example_loops:
  "\<exists>st. splitWithOverlap exampleQuotient fuel exampleFunction smallOptions ''javascript'' = Running st"
proof -
  let ?lines = "[''function f() {'', ''  return 1;'', ''}'']"
  have lines: "jsSplit nlc (content exampleFunction) = ?lines"
    by code_simp
  have lpc: "exampleQuotient (maxChunkSize smallOptions) (length (content exampleFunction)) (length ?lines) = 2"
    by code_simp
  have ov: "exampleQuotient (overlap smallOptions) (length (content exampleFunction)) (length ?lines) = 0"
    by code_simp
  have ks: "preserveSignatures smallOptions"
    by code_simp
  have "\<exists>st. splitLoop fuel exampleFunction ?lines 2 0 True ''javascript''
          \<lparr> s_currentLine = 0, s_partNumber = 0, s_chunks = [] \<rparr> = Running st"
  proof (cases fuel)
    case 0
    then show ?thesis by simp
  next
    case (Suc f)
    have "findOptimalSplitPoint ?lines 0 (min (0 + 2) (int (length ?lines))) ''javascript'' = Inr 2"
      by code_simp
    with Suc example_stuck [of f 1] show ?thesis by auto
  qed
  then obtain st where "splitLoop fuel exampleFunction ?lines (int 2) (int 0) (preserveSignatures smallOptions)
      ''javascript'' \<lparr> s_currentLine = 0, s_partNumber = 0, s_chunks = [] \<rparr> = Running st"
    using ks by auto
  then have "splitWithOverlap exampleQuotient fuel exampleFunction smallOptions ''javascript'' = Running st"
    unfolding splitWithOverlap_def Let_def lines lpc ov by simp
  then show ?thesis ..
qed

theorem splitWithOverlap_never_returns_witness:
  "maxChunkSize smallOptions < length (content exampleFunction)
   \<and> (\<forall>fuel out. splitWithOverlap exampleQuotient fuel exampleFunction smallOptions ''javascript'' \<noteq> Returned out)
   \<and> (\<forall>fuel. \<exists>st. splitWithOverlap exampleQuotient fuel exampleFunction smallOptions ''javascript'' = Running st)"
proof -
  have h: "maxChunkSize smallOptions < length (content exampleFunction)"
    by (simp add: smallOptions_def defaultOptions_def exampleFunction_def exampleSource_def nl_def)
  show ?thesis
    using h splitWithOverlap_never_returns [OF h] example_loops by simp
qed


section \<open>The sub-chunks that the splitter pushes\<close>
lemma findOptimalSplitPoint_range:
  assumes "findOptimalSplitPoint lines cur e lang = Inr sp"
    and "cur < int (length lines)" and "cur \<le> e" and "e \<le> int (length lines)"
  shows "0 \<le> sp \<and> cur \<le> sp \<and> sp < int (length lines) \<and> sp \<le> e + 9"
proof -
  let ?a = "max cur (e - 10)"
  let ?b = "min (int (length lines)) (e + 10)"
  from assms(1) have run: "scanWindow lines lang (nat (?b - ?a)) ?a (- 1) e = Inr sp"
    by (simp add: findOptimalSplitPoint_def Let_def)
  have "?a < ?b" using assms(2-4) by simp
  then obtain k where k: "nat (?b - ?a) = Suc k"
    by (cases "nat (?b - ?a)") auto
  with run have "scanWindow lines lang (Suc k) ?a (- 1) e = Inr sp" by simp
  from scanWindow_first [OF this] have "0 \<le> ?a" "?a \<le> sp" "sp < ?a + int (Suc k)" by simp_all
  moreover from k have "?a + int (Suc k) = ?b" by linarith
  ultimately show ?thesis by auto
qed

lemma length_jsSlice_bound:
  assumes "0 \<le> sp" "sp < int (length xs)" "cur < int (length xs)" "sp \<le> cur + d" "0 \<le> d"
  shows "int (length (jsSlice xs cur sp)) \<le> d"
  using assms by (auto simp: jsSlice_def sliceIndex_def Let_def)

lemma subChunk_partOf:
  assumes "findOptimalSplitPoint lines cur (min (cur + lpc) (int (length lines))) lang = Inr sp"
    and "cur < int (length lines)" and "0 \<le> lpc"
  shows "partOf c lines ks lpc i (subChunk c lines ks cur sp i)"
proof -
  from findOptimalSplitPoint_range [OF assms(1,2)] assms(2,3)
  have r: "0 \<le> sp" "sp < int (length lines)" "sp \<le> cur + (lpc + 9)" by auto
  from length_jsSlice_bound [OF r(1,2) assms(2) r(3)] assms(3)
  have "int (length (jsSlice lines cur sp)) \<le> lpc + 9" by simp
  then show ?thesis
    unfolding partOf_def by (auto simp: subChunk_def)
qed

lemma splitLoop_parts:
  assumes "0 \<le> lpc"
  shows "s_partNumber st = length (s_chunks st)
    \<Longrightarrow> (\<forall>i < length (s_chunks st). partOf c lines ks lpc i (s_chunks st ! i))
    \<Longrightarrow> i < length (builtChunks (splitLoop fuel c lines lpc ov ks lang st))
    \<Longrightarrow> partOf c lines ks lpc i (builtChunks (splitLoop fuel c lines lpc ov ks lang st) ! i)"
proof (induction fuel arbitrary: st)
  case 0
  then show ?case by (simp add: builtChunks_def)
next
  case (Suc fuel)
  let ?n = "int (length lines)"
  show ?case
  proof (cases "s_currentLine st < ?n")
    case False
    with Suc.prems show ?thesis by (simp add: builtChunks_def)
  next
    case True
    show ?thesis
    proof (cases "findOptimalSplitPoint lines (s_currentLine st) (min (s_currentLine st + lpc) ?n) lang")
      case (Inl e)
      with True Suc.prems show ?thesis by (simp add: builtChunks_def)
    next
      case (Inr sp)
      let ?x = "subChunk c lines ks (s_currentLine st) sp (s_partNumber st)"
      let ?st' = "\<lparr> s_currentLine = sp - ov, s_partNumber = s_partNumber st + 1,
                     s_chunks = s_chunks st @ [?x] \<rparr>"
      have x: "partOf c lines ks lpc (length (s_chunks st)) ?x"
        using subChunk_partOf [OF Inr True assms] Suc.prems(1) by simp
      have inv: "\<forall>j < length (s_chunks st @ [?x]). partOf c lines ks lpc j ((s_chunks st @ [?x]) ! j)"
        using x Suc.prems(2) by (auto simp: nth_append less_Suc_eq)
      show ?thesis
      proof (cases "sp - ov \<ge> ?n - ov")
        case brk: True
        with True Inr have "builtChunks (splitLoop (Suc fuel) c lines lpc ov ks lang st) = s_chunks st @ [?x]"
          by (simp add: builtChunks_def)
        with inv Suc.prems(3) show ?thesis by simp
      next
        case go: False
        with True Inr have step: "splitLoop (Suc fuel) c lines lpc ov ks lang st
            = splitLoop fuel c lines lpc ov ks lang ?st'" by simp
        have "s_partNumber ?st' = length (s_chunks ?st')" using Suc.prems(1) by simp
        moreover have "\<forall>j < length (s_chunks ?st'). partOf c lines ks lpc j (s_chunks ?st' ! j)"
          using inv by simp
        moreover have "i < length (builtChunks (splitLoop fuel c lines lpc ov ks lang ?st'))"
          using Suc.prems(3) step by simp
        ultimately show ?thesis using Suc.IH [of ?st'] step by simp
      qed
    qed
  qed
qed

lemma partOf_totalParts [simp]: "partOf c lines ks lpc i (x\<lparr> totalParts := t \<rparr>) = partOf c lines ks lpc i x"
  by (simp add: partOf_def)

lemma splitWithOverlap_parts:
  assumes "i < length (builtChunks (splitWithOverlap fq fuel c opts lang))"
  shows "partOf c (jsSplit nlc (content c)) (preserveSignatures opts)
           (int (fq (maxChunkSize opts) (length (content c)) (length (jsSplit nlc (content c))))) i
           (builtChunks (splitWithOverlap fq fuel c opts lang) ! i)"
proof -
  let ?lines = "jsSplit nlc (content c)"
  let ?lpc = "int (fq (maxChunkSize opts) (length (content c)) (length ?lines))"
  let ?ov = "int (fq (overlap opts) (length (content c)) (length ?lines))"
  let ?r = "splitLoop fuel c ?lines ?lpc ?ov (preserveSignatures opts) lang
              \<lparr> s_currentLine = 0, s_partNumber = 0, s_chunks = [] \<rparr>"
  have parts: "j < length (builtChunks ?r)
      \<Longrightarrow> partOf c ?lines (preserveSignatures opts) ?lpc j (builtChunks ?r ! j)" for j
    by (rule splitLoop_parts) simp_all
  show ?thesis
  proof (cases ?r)
    case (Returned cs)
    then have b: "builtChunks (splitWithOverlap fq fuel c opts lang)
        = map (\<lambda>x. x\<lparr> totalParts := Some (length cs) \<rparr>) cs"
      by (simp add: splitWithOverlap_def Let_def builtChunks_def)
    from Returned have "builtChunks ?r = cs" by (simp add: builtChunks_def)
    with parts [of i] assms b show ?thesis by simp
  next
    case (Threw e)
    then have "builtChunks (splitWithOverlap fq fuel c opts lang) = []"
      by (simp add: splitWithOverlap_def Let_def builtChunks_def)
    with assms show ?thesis by simp
  next
    case (Running st)
    then have "builtChunks (splitWithOverlap fq fuel c opts lang) = builtChunks ?r"
      by (simp add: splitWithOverlap_def Let_def builtChunks_def)
    with parts [of i] assms show ?thesis by simp
  qed
qed


text \<open>
  C8.  Of the sub-chunks that the splitter pushes for a chunk longer than \<open>maxSize\<close>,
  counted from 0 at any moment of the run, each has \<open>isPartial\<close> set and carries its
  position as \<open>partNumber\<close>; sub-chunk 0 has the \<open>docstring\<close> of the chunk and every
  later one has none.
\<close>

theorem only_first_part_keeps_docstring:
  assumes "maxChunkSize opts < length (content c)"
    and "i < length (builtChunks (splitWithOverlap fq fuel c opts lang))"
  shows "isPartial (builtChunks (splitWithOverlap fq fuel c opts lang) ! i)
     \<and> partNumber (builtChunks (splitWithOverlap fq fuel c opts lang) ! i) = Some i
     \<and> docstring (builtChunks (splitWithOverlap fq fuel c opts lang) ! i)
         = (if i = 0 then docstring c else None)"
  using splitWithOverlap_parts [OF assms(2)] by (simp add: partOf_def)

theorem only_first_part_keeps_docstring_witness:
  "maxChunkSize smallOptions < length (content exampleLong)
   \<and> 1 < length (builtChunks (splitWithOverlap exampleQuotient 3 exampleLong smallOptions ''javascript''))
   \<and> isPartial (builtChunks (splitWithOverlap exampleQuotient 3 exampleLong smallOptions ''javascript'') ! 0)
   \<and> docstring (builtChunks (splitWithOverlap exampleQuotient 3 exampleLong smallOptions ''javascript'') ! 0)
       = Some ''/** Adds four. */''
   \<and> isPartial (builtChunks (splitWithOverlap exampleQuotient 3 exampleLong smallOptions ''javascript'') ! 1)
   \<and> partNumber (builtChunks (splitWithOverlap exampleQuotient 3 exampleLong smallOptions ''javascript'') ! 1) = Some 1
   \<and> docstring (builtChunks (splitWithOverlap exampleQuotient 3 exampleLong smallOptions ''javascript'') ! 1) = None"
proof -
  have h: "maxChunkSize smallOptions < length (content exampleLong)"
    by code_simp
  have l: "length (builtChunks (splitWithOverlap exampleQuotient 3 exampleLong smallOptions ''javascript'')) = 3"
    by code_simp
  have d: "docstring exampleLong = Some ''/** Adds four. */''"
    by (simp add: exampleLong_def)
  from l have "0 < length (builtChunks (splitWithOverlap exampleQuotient 3 exampleLong smallOptions ''javascript''))"
    and "1 < length (builtChunks (splitWithOverlap exampleQuotient 3 exampleLong smallOptions ''javascript''))"
    by simp_all
  from only_first_part_keeps_docstring [OF h this(1)] only_first_part_keeps_docstring [OF h this(2)]
  show ?thesis using h l d by simp
qed

text \<open>
  C3, as stated, fails on the size: the line budget is approximate and the search for
  a split point reaches up to nine lines past it.  With \<open>maxChunkSize = 20\<close> the first
  sub-chunk pushed for the seven-line function has 66 characters, more than
  \<open>maxChunkSize\<close> and one signature line (15 characters with its line break).
\<close>

theorem sub_chunk_size_counterexample:
  "maxChunkSize smallOptions < length (content exampleLong)
   \<and> length (builtChunks (splitWithOverlap exampleQuotient 1 exampleLong smallOptions ''javascript'')) = 1
   \<and> length (content (builtChunks (splitWithOverlap exampleQuotient 1 exampleLong smallOptions ''javascript'') ! 0)) = 66
   \<and> \<not> 66 \<le> maxChunkSize smallOptions + length (''function g() {'' @ nl)"
  by code_simp

text \<open>
  C3, amended.  The \<open>i\<close>-th sub-chunk that the splitter pushes for a chunk longer than
  \<open>maxSize\<close> has part number \<open>i\<close> and names the chunk as its parent, and its content
  is a run of at most \<open>linesPerChunk + 9\<close> lines of the chunk, below one signature line
  when \<open>preserveSignatures\<close> is set, the chunk has a signature and \<open>i > 0\<close>.  Here
  \<open>linesPerChunk\<close> is the number that the code computes in double arithmetic,
  \<open>Math.floor(maxChunkSize / (content.length / lines.length))\<close>, whatever it is.
\<close>

theorem sub_chunk_numbered_and_line_bounded:
  assumes "maxChunkSize opts < length (content c)"
    and "i < length (builtChunks (splitWithOverlap fq fuel c opts lang))"
  shows "partNumber (builtChunks (splitWithOverlap fq fuel c opts lang) ! i) = Some i
     \<and> parentChunk (builtChunks (splitWithOverlap fq fuel c opts lang) ! i) = name c
     \<and> (\<exists>cur sp.
          content (builtChunks (splitWithOverlap fq fuel c opts lang) ! i)
            = jsJoin nl (signatureLine c (preserveSignatures opts) i @ jsSlice (jsSplit nlc (content c)) cur sp)
          \<and> length (jsSlice (jsSplit nlc (content c)) cur sp)
              \<le> fq (maxChunkSize opts) (length (content c)) (length (jsSplit nlc (content c))) + 9)"
proof -
  have "int (length xs) \<le> int n + 9 \<Longrightarrow> length xs \<le> n + 9" for xs :: "string list" and n :: nat
    by linarith
  with splitWithOverlap_parts [OF assms(2)] show ?thesis
    unfolding partOf_def by blast
qed

theorem sub_chunk_numbered_and_line_bounded_witness:
  "maxChunkSize smallOptions < length (content exampleLong)
   \<and> 1 < length (builtChunks (splitWithOverlap exampleQuotient 3 exampleLong smallOptions ''javascript''))
   \<and> partNumber (builtChunks (splitWithOverlap exampleQuotient 3 exampleLong smallOptions ''javascript'') ! 1) = Some 1
   \<and> parentChunk (builtChunks (splitWithOverlap exampleQuotient 3 exampleLong smallOptions ''javascript'') ! 1) = Some ''g''
   \<and> (\<exists>cur sp.
        content (builtChunks (splitWithOverlap exampleQuotient 3 exampleLong smallOptions ''javascript'') ! 1)
          = jsJoin nl ([''function g() {''] @ jsSlice (jsSplit nlc (content exampleLong)) cur sp)
        \<and> length (jsSlice (jsSplit nlc (content exampleLong)) cur sp) \<le> 2 + 9)"
proof -
  have h: "maxChunkSize smallOptions < length (content exampleLong)"
    by code_simp
  have l: "1 < length (builtChunks (splitWithOverlap exampleQuotient 3 exampleLong smallOptions ''javascript''))"
    by code_simp
  have s: "signatureLine exampleLong (preserveSignatures smallOptions) 1 = [''function g() {'']"
    by code_simp
  have n: "name exampleLong = Some ''g''"
    by (simp add: exampleLong_def)
  have q: "exampleQuotient (maxChunkSize smallOptions) (length (content exampleLong))
             (length (jsSplit nlc (content exampleLong))) = 2"
    by code_simp
  from sub_chunk_numbered_and_line_bounded [OF h l] show ?thesis
    using h l unfolding s n q by simp
qed


section \<open>The fallback windower keeps to its source\<close>

lemma substring_range:
  "0 \<le> a \<Longrightarrow> a \<le> b \<Longrightarrow> b \<le> int (length s) \<Longrightarrow> substring s a b = sourceRange s a b"
  by (auto simp: substring_def sourceRange_def clampIndex_def Let_def min_def max_def nat_diff_distrib)

lemma windowChunk_fields [simp]:
  "startChar (windowChunk src M s e p) = s"
  "endChar (windowChunk src M s e p) = e"
  "content (windowChunk src M s e p) = substring src s e"
  by (simp_all add: windowChunk_def bareChunk_def)

lemma windowChunk_keeps:
  "0 \<le> s \<Longrightarrow> s < e \<Longrightarrow> e \<le> int (length src) \<Longrightarrow> keepsToSource src (windowChunk src M s e p)"
  by (simp add: keepsToSource_def substring_range)

text \<open>With \<open>overlap < maxChunkSize\<close> every window lies inside the source.\<close>

lemma windowLoop_keeps:
  assumes "ov < M"
  shows "windowLoop fuel src M ov st = Returned out \<Longrightarrow> 0 \<le> w_start st
    \<Longrightarrow> list_all (keepsToSource src) (w_chunks st) \<Longrightarrow> list_all (keepsToSource src) out"
proof (induction fuel arbitrary: st)
  case 0
  then show ?case by simp
next
  case (Suc fuel)
  let ?L = "int (length src)"
  let ?e = "min (w_start st + int M) ?L"
  show ?case
  proof (cases "w_start st < ?L")
    case False
    with Suc.prems show ?thesis by simp
  next
    case True
    let ?w = "windowChunk src M (w_start st) ?e (w_partNumber st)"
    have w: "keepsToSource src ?w"
      using True Suc.prems(2) assms by (intro windowChunk_keeps) auto
    show ?thesis
    proof (cases "?e - int ov \<ge> ?L - int ov")
      case brk: True
      with True Suc.prems(1) have "out = w_chunks st @ [?w]" by simp
      with w Suc.prems(3) show ?thesis by simp
    next
      case go: False
      let ?st' = "\<lparr> w_start = ?e - int ov, w_partNumber = w_partNumber st + 1,
                     w_chunks = w_chunks st @ [?w] \<rparr>"
      from go True Suc.prems(1) have run: "windowLoop fuel src M ov ?st' = Returned out" by simp
      have "0 \<le> w_start ?st'" using go True Suc.prems(2) assms by (auto simp: min_def split: if_splits)
      moreover have "list_all (keepsToSource src) (w_chunks ?st')" using w Suc.prems(3) by simp
      ultimately show ?thesis using Suc.IH [OF run] by blast
    qed
  qed
qed

text \<open>With \<open>overlap \<ge> maxChunkSize\<close> the start never passes 0 and the loop never leaves.\<close>

lemma windowLoop_never_returns:
  assumes "M \<le> ov" and "M < length src"
  shows "w_start st \<le> 0 \<Longrightarrow> windowLoop fuel src M ov st \<noteq> Returned out"
proof (induction fuel arbitrary: st)
  case 0
  then show ?case by simp
next
  case (Suc fuel)
  let ?L = "int (length src)"
  let ?e = "min (w_start st + int M) ?L"
  let ?w = "windowChunk src M (w_start st) ?e (w_partNumber st)"
  let ?st' = "\<lparr> w_start = ?e - int ov, w_partNumber = w_partNumber st + 1,
                 w_chunks = w_chunks st @ [?w] \<rparr>"
  have e: "?e = w_start st + int M" using Suc.prems assms by simp
  have "w_start ?st' \<le> 0" using e Suc.prems assms by simp
  from Suc.IH [OF this] e Suc.prems assms show ?case by simp
qed

lemma simpleChunk_never_returns:
  assumes "maxChunkSize opts < length src" and "maxChunkSize opts \<le> overlap opts"
  shows "simpleChunk fuel src opts \<noteq> Returned out"
proof -
  have "windowLoop fuel src (maxChunkSize opts) (overlap opts)
      \<lparr> w_start = 0, w_partNumber = 0, w_chunks = [] \<rparr> \<noteq> Returned cs" for cs
    using assms by (intro windowLoop_never_returns) simp_all
  with assms(1) show ?thesis
    by (auto simp: simpleChunk_def split: outcome.splits)
qed

lemma keeps_totalParts [simp]: "keepsToSource src (c\<lparr> totalParts := t \<rparr>) = keepsToSource src c"
  by (simp add: keepsToSource_def)

lemma simpleChunk_keeps:
  assumes "simpleChunk fuel src opts = Returned out"
  shows "list_all (keepsToSource src) out"
proof (cases "length src \<le> maxChunkSize opts")
  case True
  with assms have "out = [bareChunk ''text'' ''content'' 1 (int (length (jsSplit nlc src))) 0 (int (length src)) src]"
    by (simp add: simpleChunk_def)
  then show ?thesis
    by (cases "src = []") (simp_all add: keepsToSource_def bareChunk_def sourceRange_def)
next
  case False
  let ?st = "\<lparr> w_start = 0, w_partNumber = 0, w_chunks = [] \<rparr>"
  from False assms obtain cs where
    run: "windowLoop fuel src (maxChunkSize opts) (overlap opts) ?st = Returned cs"
    and out: "out = map (\<lambda>x. x\<lparr> totalParts := Some (length cs) \<rparr>) cs"
    by (auto simp: simpleChunk_def split: outcome.splits)
  have "overlap opts < maxChunkSize opts"
  proof (rule ccontr)
    assume "\<not> overlap opts < maxChunkSize opts"
    then have "windowLoop fuel src (maxChunkSize opts) (overlap opts) ?st \<noteq> Returned cs"
      using False by (intro windowLoop_never_returns) simp_all
    with run show False by simp
  qed
  from windowLoop_keeps [OF this run] have "list_all (keepsToSource src) cs" by simp
  with out show ?thesis by (simp add: list_all_iff)
qed


text \<open>A result does not depend on the fuel left over.\<close>

lemma windowLoop_more_fuel:
  "windowLoop fuel src M ov st = Returned out \<Longrightarrow> windowLoop (fuel + k) src M ov st = Returned out"
proof (induction fuel arbitrary: st)
  case 0
  then show ?case by simp
next
  case (Suc fuel)
  show ?case
  proof (cases "w_start st < int (length src)
      \<and> \<not> min (w_start st + int M) (int (length src)) - int ov \<ge> int (length src) - int ov")
    case True
    with Suc.prems Suc.IH show ?thesis by simp
  next
    case False
    with Suc.prems show ?thesis by auto
  qed
qed

lemma simpleChunk_more_fuel:
  "simpleChunk fuel src opts = Returned out \<Longrightarrow> simpleChunk (fuel + k) src opts = Returned out"
  by (auto simp: simpleChunk_def windowLoop_more_fuel split: outcome.splits if_splits)


section \<open>The fallback windower covers its input\<close>

text \<open>
  From a start inside the source the loop leaves within \<open>length src - start\<close>
  iterations; the windows it pushes begin at the start, each next one \<open>overlap\<close>
  characters before the end of the one before, and end at the end of the source.
\<close>

lemma windowLoop_covers:
  assumes "0 < ov" and "ov < M"
  shows "0 \<le> w_start st \<Longrightarrow> w_start st < int (length src) \<Longrightarrow> nat (int (length src) - w_start st) \<le> fuel
    \<Longrightarrow> \<exists>cs. windowLoop fuel src M ov st = Returned (w_chunks st @ cs) \<and> cs \<noteq> []
          \<and> startChar (cs ! 0) = w_start st \<and> endChar (last cs) = int (length src)
          \<and> (\<forall>i. Suc i < length cs \<longrightarrow> startChar (cs ! Suc i) = endChar (cs ! i) - int ov)
          \<and> (\<forall>p. w_start st \<le> p \<and> p < int (length src) \<longrightarrow> (\<exists>c \<in> set cs. startChar c \<le> p \<and> p < endChar c))"
proof (induction fuel arbitrary: st)
  case 0
  then show ?case by simp
next
  case (Suc fuel)
  let ?L = "int (length src)"
  let ?e = "min (w_start st + int M) ?L"
  let ?w = "windowChunk src M (w_start st) ?e (w_partNumber st)"
  show ?case
  proof (cases "?e - int ov \<ge> ?L - int ov")
    case brk: True
    then have e: "?e = ?L" by simp
    have "windowLoop (Suc fuel) src M ov st = Returned (w_chunks st @ [?w])"
      using brk Suc.prems by simp
    moreover have "\<forall>p. w_start st \<le> p \<and> p < ?L \<longrightarrow> (\<exists>c \<in> set [?w]. startChar c \<le> p \<and> p < endChar c)"
      using e by simp
    ultimately show ?thesis using e by (intro exI [of _ "[?w]"]) simp
  next
    case go: False
    let ?st' = "\<lparr> w_start = ?e - int ov, w_partNumber = w_partNumber st + 1,
                   w_chunks = w_chunks st @ [?w] \<rparr>"
    from go have e: "?e = w_start st + int M" "w_start st + int M < ?L" by (auto simp: min_def split: if_splits)
    have step: "windowLoop (Suc fuel) src M ov st = windowLoop fuel src M ov ?st'"
      using go Suc.prems by simp
    have "0 \<le> w_start ?st'" "w_start ?st' < ?L" "nat (?L - w_start ?st') \<le> fuel"
      using e Suc.prems assms by simp_all
    from Suc.IH [OF this] obtain cs where
      run: "windowLoop fuel src M ov ?st' = Returned (w_chunks ?st' @ cs)" and ne: "cs \<noteq> []"
      and hd: "startChar (cs ! 0) = w_start ?st'" and lst: "endChar (last cs) = ?L"
      and chain: "\<forall>i. Suc i < length cs \<longrightarrow> startChar (cs ! Suc i) = endChar (cs ! i) - int ov"
      and cover: "\<forall>p. w_start ?st' \<le> p \<and> p < ?L \<longrightarrow> (\<exists>c \<in> set cs. startChar c \<le> p \<and> p < endChar c)"
      by blast
    have 1: "windowLoop (Suc fuel) src M ov st = Returned (w_chunks st @ (?w # cs))"
      using step run by simp
    have 2: "\<forall>i. Suc i < length (?w # cs) \<longrightarrow> startChar ((?w # cs) ! Suc i) = endChar ((?w # cs) ! i) - int ov"
    proof (intro allI impI)
      fix i assume "Suc i < length (?w # cs)"
      then show "startChar ((?w # cs) ! Suc i) = endChar ((?w # cs) ! i) - int ov"
        using hd chain by (cases i) simp_all
    qed
    have 3: "\<forall>p. w_start st \<le> p \<and> p < ?L \<longrightarrow> (\<exists>c \<in> set (?w # cs). startChar c \<le> p \<and> p < endChar c)"
    proof (intro allI impI)
      fix p assume p: "w_start st \<le> p \<and> p < ?L"
      show "\<exists>c \<in> set (?w # cs). startChar c \<le> p \<and> p < endChar c"
      proof (cases "p < ?e")
        case True
        with p show ?thesis by simp
      next
        case False
        then have "w_start ?st' \<le> p \<and> p < ?L" using p assms by simp
        with cover show ?thesis by auto
      qed
    qed
    show ?thesis
      using 1 2 3 ne lst by (intro exI [of _ "?w # cs"]) simp
  qed
qed

lemma map_totalParts_nth:
  "i < length cs \<Longrightarrow> startChar (map (\<lambda>x. x\<lparr> totalParts := t \<rparr>) cs ! i) = startChar (cs ! i)
     \<and> endChar (map (\<lambda>x. x\<lparr> totalParts := t \<rparr>) cs ! i) = endChar (cs ! i)"
  by simp

text \<open>
  C10.  For a content longer than \<open>maxChunkSize\<close> and \<open>0 < overlap < maxChunkSize\<close>,
  the windower returns within \<open>length src\<close> iterations; the first chunk starts at 0,
  each next chunk starts \<open>overlap\<close> characters before the end of the one before, the
  last chunk ends at the length of the content, and every position of the content
  lies in a chunk.
\<close>

theorem windower_covers_input:
  assumes "maxChunkSize opts < length src" and "0 < overlap opts" and "overlap opts < maxChunkSize opts"
    and "length src \<le> fuel"
  shows "\<exists>out. simpleChunk fuel src opts = Returned out \<and> out \<noteq> []
     \<and> startChar (out ! 0) = 0
     \<and> (\<forall>i. Suc i < length out \<longrightarrow> startChar (out ! Suc i) = endChar (out ! i) - int (overlap opts))
     \<and> endChar (last out) = int (length src)
     \<and> (\<forall>p. 0 \<le> p \<and> p < int (length src) \<longrightarrow> (\<exists>c \<in> set out. startChar c \<le> p \<and> p < endChar c))"
proof -
  let ?st = "\<lparr> w_start = 0, w_partNumber = 0, w_chunks = [] \<rparr>"
  have "0 \<le> w_start ?st" "w_start ?st < int (length src)" "nat (int (length src) - w_start ?st) \<le> fuel"
    using assms(1,4) by auto
  from windowLoop_covers [OF assms(2,3) this] obtain cs where
    run: "windowLoop fuel src (maxChunkSize opts) (overlap opts) ?st = Returned cs" and ne: "cs \<noteq> []"
    and first: "startChar (cs ! 0) = 0" and lst: "endChar (last cs) = int (length src)"
    and chain: "\<forall>i. Suc i < length cs \<longrightarrow> startChar (cs ! Suc i) = endChar (cs ! i) - int (overlap opts)"
    and cover: "\<forall>p. 0 \<le> p \<and> p < int (length src) \<longrightarrow> (\<exists>c \<in> set cs. startChar c \<le> p \<and> p < endChar c)"
    by auto
  let ?out = "map (\<lambda>x. x\<lparr> totalParts := Some (length cs) \<rparr>) cs"
  have 1: "simpleChunk fuel src opts = Returned ?out"
    using run assms(1) by (simp add: simpleChunk_def)
  have 2: "startChar (?out ! 0) = 0"
    using first ne by simp
  have 3: "\<forall>i. Suc i < length ?out \<longrightarrow> startChar (?out ! Suc i) = endChar (?out ! i) - int (overlap opts)"
    using chain by simp
  have 4: "endChar (last ?out) = int (length src)"
    using lst ne by (simp add: last_map)
  have 5: "\<forall>p. 0 \<le> p \<and> p < int (length src) \<longrightarrow> (\<exists>c \<in> set ?out. startChar c \<le> p \<and> p < endChar c)"
  proof (intro allI impI)
    fix p assume "0 \<le> p \<and> p < int (length src)"
    with cover obtain c where "c \<in> set cs" "startChar c \<le> p \<and> p < endChar c" by blast
    then show "\<exists>c \<in> set ?out. startChar c \<le> p \<and> p < endChar c"
      by (intro bexI [of _ "c\<lparr> totalParts := Some (length cs) \<rparr>"]) simp_all
  qed
  have 6: "?out \<noteq> []"
    using ne by simp
  show ?thesis
  proof (intro exI conjI)
    show "simpleChunk fuel src opts = Returned ?out" by (rule 1)
    show "?out \<noteq> []" by (rule 6)
    show "startChar (?out ! 0) = 0" by (rule 2)
    show "\<forall>i. Suc i < length ?out \<longrightarrow> startChar (?out ! Suc i) = endChar (?out ! i) - int (overlap opts)"
      by (rule 3)
    show "endChar (last ?out) = int (length src)" by (rule 4)
    show "\<forall>p. 0 \<le> p \<and> p < int (length src) \<longrightarrow> (\<exists>c \<in> set ?out. startChar c \<le> p \<and> p < endChar c)"
      by (rule 5)
  qed
qed

theorem windower_covers_input_witness:
  "4 < length ''abcdefghij''
   \<and> map (\<lambda>c. (startChar c, endChar c, content c))
        (returned (simpleChunk 10 ''abcdefghij'' (defaultOptions\<lparr> maxChunkSize := 4, overlap := 1 \<rparr>)))
       = [(0, 4, ''abcd''), (3, 7, ''defg''), (6, 10, ''ghij'')]
   \<and> (\<exists>out. simpleChunk 10 ''abcdefghij'' (defaultOptions\<lparr> maxChunkSize := 4, overlap := 1 \<rparr>) = Returned out
         \<and> out \<noteq> [] \<and> startChar (out ! 0) = 0
         \<and> (\<forall>i. Suc i < length out \<longrightarrow> startChar (out ! Suc i) = endChar (out ! i) - 1)
         \<and> endChar (last out) = 10
         \<and> (\<forall>p. 0 \<le> p \<and> p < 10 \<longrightarrow> (\<exists>c \<in> set out. startChar c \<le> p \<and> p < endChar c)))"
proof -
  let ?opts = "defaultOptions\<lparr> maxChunkSize := 4, overlap := 1 \<rparr>"
  have h: "maxChunkSize ?opts < length ''abcdefghij''" "0 < overlap ?opts"
    "overlap ?opts < maxChunkSize ?opts" "length ''abcdefghij'' \<le> 10"
    by simp_all
  have e: "map (\<lambda>c. (startChar c, endChar c, content c)) (returned (simpleChunk 10 ''abcdefghij'' ?opts))
       = [(0, 4, ''abcd''), (3, 7, ''defg''), (6, 10, ''ghij'')]"
    by code_simp
  from windower_covers_input [OF h] e show ?thesis by simp
qed


section \<open>The chunks of \<open>parseJavaScript\<close> keep to their source\<close>

lemma wholeFile_keeps: "keepsToSource code (wholeFile n code)"
  by (cases "code = []") (simp_all add: keepsToSource_def wholeFile_def bareChunk_def sourceRange_def)

lemma declarationChunk_keeps:
  "spanWithin code p \<Longrightarrow> keepsToSource code (declarationChunk t n p code)"
  by (simp add: keepsToSource_def declarationChunk_def bareChunk_def spanWithin_def substring_range)

lemma keeps_updates [simp]:
  "keepsToSource src (c\<lparr> signature := s \<rparr>) = keepsToSource src c"
  "keepsToSource src (c\<lparr> docstring := d \<rparr>) = keepsToSource src c"
  "keepsToSource src (c\<lparr> isAsync := a \<rparr>) = keepsToSource src c"
  "keepsToSource src (c\<lparr> isGenerator := g \<rparr>) = keepsToSource src c"
  "keepsToSource src (c\<lparr> isExported := x \<rparr>) = keepsToSource src c"
  by (simp_all add: keepsToSource_def)

lemma extractNodeInfo_keeps:
  "extractNodeInfo n code lines = Inr (Some c) \<Longrightarrow> nodeWithin code n \<Longrightarrow> keepsToSource code c"
proof (induction n code lines arbitrary: c rule: extractNodeInfo.induct)
  case (1 p i bodyStart async generator code lines)
  then show ?case by (auto split: sum.splits simp: declarationChunk_keeps)
next
  case (2 p i code lines)
  then show ?case by (auto split: sum.splits simp: declarationChunk_keeps)
next
  case (3 p ds code lines)
  then show ?case by (auto split: sum.splits option.splits simp: declarationChunk_keeps)
next
  case (5 d code lines)
  then show ?case by (auto split: sum.splits option.splits)
next
  case (7 d code lines)
  then show ?case by (auto split: sum.splits option.splits)
qed simp_all

lemma walkBody_keeps:
  "walkBody ns code lines acc = (chunks, r) \<Longrightarrow> list_all (nodeWithin code) ns
   \<Longrightarrow> list_all (keepsToSource code) acc \<Longrightarrow> list_all (keepsToSource code) chunks"
proof (induction ns arbitrary: acc)
  case Nil
  then show ?case by simp
next
  case (Cons n ns)
  show ?case
  proof (cases "extractNodeInfo n code lines")
    case (Inl e)
    with Cons.prems show ?thesis by simp
  next
    case (Inr oc)
    show ?thesis
    proof (cases oc)
      case None
      with Inr Cons show ?thesis by simp
    next
      case (Some c)
      with Inr Cons.prems have "keepsToSource code c"
        using extractNodeInfo_keeps [of n code lines c] by simp
      with Some Inr Cons show ?thesis by simp
    qed
  qed
qed

lemma parseJavaScript_keeps:
  assumes "treeWithin parse code"
  shows "list_all (keepsToSource code) (parseJavaScript parse code filePath)"
proof (cases "parse code")
  case (Inl e)
  then show ?thesis by (simp add: parseJavaScript_def wholeFile_keeps)
next
  case (Inr body)
  obtain chunks r where w: "walkBody body code (jsSplit nlc code) [] = (chunks, r)"
    by (cases "walkBody body code (jsSplit nlc code) []") auto
  from assms Inr have "list_all (nodeWithin code) body" by (simp add: treeWithin_def)
  from walkBody_keeps [OF w this] have "list_all (keepsToSource code) chunks" by simp
  with Inr w show ?thesis
    by (cases r) (simp_all add: parseJavaScript_def wholeFile_keeps)
qed


section \<open>A source that the parser library rejects\<close>

text \<open>
  C5, as stated, fails on the kind: the chunk for a source that does not parse has the
  type \<open>other\<close>; \<open>unparseable\<close> is its name.
\<close>

theorem parse_failure_type_counterexample:
  "map ctype (parseJavaScript (acornParse rejecting) ''function ('' ''a.js'') = [''other'']
   \<and> ''other'' \<noteq> ''unparseable''"
  by (simp add: parseJavaScript_def rejecting_def wholeFile_def bareChunk_def)

text \<open>
  C5, amended.  When the parse of a source raises an error, \<open>parseJavaScript\<close> returns
  one chunk, of type \<open>other\<close> and name \<open>unparseable\<close>, from offset 0 to the length
  of the source, whose content is the source; the error does not reach the caller.
\<close>

theorem parse_failure_whole_file:
  "parse code = Inl err \<Longrightarrow>
     parseJavaScript parse code filePath = [wholeFile ''unparseable'' code]
     \<and> ctype (wholeFile ''unparseable'' code) = ''other''
     \<and> name (wholeFile ''unparseable'' code) = Some ''unparseable''
     \<and> startChar (wholeFile ''unparseable'' code) = 0
     \<and> endChar (wholeFile ''unparseable'' code) = int (length code)
     \<and> content (wholeFile ''unparseable'' code) = code"
  by (simp add: parseJavaScript_def wholeFile_def bareChunk_def)

theorem parse_failure_whole_file_witness:
  "acornParse rejecting ''function ('' = Inl (SyntaxError ''Unexpected token'')
   \<and> parseJavaScript (acornParse rejecting) ''function ('' ''a.js'' = [wholeFile ''unparseable'' ''function ('']
   \<and> ctype (wholeFile ''unparseable'' ''function ('') = ''other''
   \<and> name (wholeFile ''unparseable'' ''function ('') = Some ''unparseable''
   \<and> startChar (wholeFile ''unparseable'' ''function ('') = 0
   \<and> endChar (wholeFile ''unparseable'' ''function ('') = 10
   \<and> content (wholeFile ''unparseable'' ''function ('') = ''function (''"
proof -
  have h: "acornParse rejecting ''function ('' = Inl (SyntaxError ''Unexpected token'')"
    by (simp add: rejecting_def)
  from parse_failure_whole_file [of "acornParse rejecting" "''function (''" _ "''a.js''", OF h] h
  show ?thesis by simp
qed


section \<open>The chunks of \<open>parsePython\<close> lie in their source\<close>

lemma blockEnd_ge: "e \<le> blockEnd ls b e"
proof (induction ls arbitrary: e)
  case Nil
  then show ?case by simp
next
  case (Cons l ls)
  from Cons [of "e + 1"] have "e \<le> blockEnd ls b (e + 1)" by simp
  then show ?case by simp
qed

lemma substring_prefix: "idx \<le> length s \<Longrightarrow> substring s 0 (int idx) = take idx s"
  by (simp add: substring_def clampIndex_def Let_def min_def)

text \<open>The block of a header that starts at \<open>idx\<close> ends at or after \<open>idx\<close>, inside the
  source.\<close>

lemma blockRange:
  assumes "idx \<le> length code"
  shows "int idx \<le> int (snd (findPythonBlockEnd (jsSplit nlc code) (lineOf code idx - 1) b))
     \<and> snd (findPythonBlockEnd (jsSplit nlc code) (lineOf code idx - 1) b) \<le> length code"
proof -
  let ?lines = "jsSplit nlc code"
  let ?ln = "lineOf code idx"
  let ?e = "blockEnd (drop (?ln - 1 + 1) ?lines) b (?ln - 1 + 1)"
  have ln: "?ln = length (jsSplit nlc (take idx code))"
    using assms by (simp add: lineOf_def substring_prefix)
  then have pos: "0 < ?ln" by (simp add: jsSplit_nonempty)
  then have e: "?ln \<le> ?e" using blockEnd_ge [of "?ln - 1 + 1" "drop (?ln - 1 + 1) ?lines" b] by simp
  have snd: "snd (findPythonBlockEnd ?lines (?ln - 1) b) = length (jsJoin nl (take ?e ?lines))"
    by (simp add: findPythonBlockEnd_def Let_def jsSlice_from_0)
  have "idx \<le> length (jsJoin nl (take ?ln ?lines))"
    unfolding ln nl_def by (rule index_le_line_end [OF assms])
  also have "\<dots> \<le> length (jsJoin nl (take ?e ?lines))"
    by (rule length_join_take_mono [OF e])
  finally have 1: "idx \<le> length (jsJoin nl (take ?e ?lines))" .
  have 2: "length (jsJoin nl (take ?e ?lines)) \<le> length code"
    unfolding nl_def by (rule join_take_le)
  from 1 2 snd show ?thesis by simp
qed

lemma functionChunk_inSource:
  assumes "fm_index m \<le> length code"
  shows "inSource code (functionChunk code (jsSplit nlc code) m)"
  using blockRange [OF assms, of "length (fm_indent m)"]
  by (simp add: functionChunk_def Let_def inSource_def bareChunk_def substring_range)

lemma classChunk_inSource:
  assumes "cm_index m \<le> length code"
  shows "inSource code (classChunk code (jsSplit nlc code) m)"
  using blockRange [OF assms, of "length (cm_indent m)"]
  by (simp add: classChunk_def Let_def inSource_def bareChunk_def substring_range)

lemma keeps_inSource: "keepsToSource src c \<Longrightarrow> inSource src c"
  by (simp add: keepsToSource_def inSource_def)

lemma parsePython_inSource:
  assumes "list_all (\<lambda>m. fm_index m \<le> length code) fms" and "list_all (\<lambda>m. cm_index m \<le> length code) cms"
  shows "list_all (inSource code) (parsePython fms cms code filePath)"
proof -
  let ?lines = "jsSplit nlc code"
  let ?chunks = "map (functionChunk code ?lines) fms @ map (classChunk code ?lines) cms"
  have "list_all (inSource code) ?chunks"
    using assms by (auto simp: list_all_iff functionChunk_inSource classChunk_inSource)
  moreover have "inSource code (wholeFile ''module'' code)"
    by (rule keeps_inSource [OF wholeFile_keeps])
  ultimately have "list_all (inSource code) (if ?chunks = [] then [wholeFile ''module'' code] else ?chunks)"
    by simp
  then show ?thesis
    by (simp add: parsePython_def Let_def list_all_iff)
qed

text \<open>For the source with a blank first line the chunk of the function is empty, in a
  source that is not.\<close>

lemma blank_line_chunk:
  "map (\<lambda>c. (startChar c, endChar c, content c)) (parsePython [blankLineMatch] [] blankLineSource ''a.py'')
     = [(0, 0, [])]"
  by code_simp


section \<open>The metrics of the enricher\<close>

lemma scoreChunk_bounds: "5 \<le> scoreChunk c \<and> scoreChunk c \<le> 10"
  by (simp add: scoreChunk_def le_floor_iff)

lemma estimateComplexity_bounds: "1 \<le> estimateComplexity s \<and> estimateComplexity s \<le> 100"
  by (simp add: estimateComplexity_def)

text \<open>
  C9.  The importance score of every enriched chunk is at least 5 and at most 10: the
  score starts at 5, every bonus adds to it, and the result is capped at 10.
\<close>

theorem chunk_score_at_least_5:
  "5 \<le> chunk_score (metadata (enrichChunkMetadata c src filePath withComplexity))
   \<and> chunk_score (metadata (enrichChunkMetadata c src filePath withComplexity)) \<le> 10"
  by (simp add: enrichChunkMetadata_def scoreChunk_bounds)


section \<open>What the engine returns\<close>

text \<open>
  The engine returns only when no parsed chunk is longer than \<open>maxChunkSize\<close>: the
  splitter does not return.  What it returns is the parsed chunks, enriched.
\<close>

lemma chunkAll_returned:
  "chunkAll fq fuel opts lang src filePath cs acc = Returned out \<Longrightarrow>
     out = acc @ map (\<lambda>c. Enriched (enrichChunkMetadata c src filePath (calculateComplexity opts))) cs"
proof (induction cs arbitrary: acc)
  case Nil
  then show ?case by simp
next
  case (Cons c cs)
  show ?case
  proof (cases "length (content c) \<le> maxChunkSize opts")
    case True
    with Cons.prems
    have "chunkAll fq fuel opts lang src filePath cs
            (acc @ [Enriched (enrichChunkMetadata c src filePath (calculateComplexity opts))]) = Returned out"
      by simp
    from Cons.IH [OF this] show ?thesis by simp
  next
    case False
    have "splitWithOverlap fq fuel c opts lang \<noteq> Returned subs" for subs
      by (rule splitWithOverlap_no_return)
    with False Cons.prems show ?thesis by (auto split: outcome.splits)
  qed
qed

lemma detect_js: "detectLanguage ''f.js'' = ''javascript''"
  by (simp add: detectLanguage_def extname_def toLowerCase_def toLowerChar_def languageMap_def)

lemma detect_a_js: "detectLanguage ''a.js'' = ''javascript''"
  by (simp add: detectLanguage_def extname_def toLowerCase_def toLowerChar_def languageMap_def)

lemma detect_txt: "detectLanguage ''notes.txt'' = ''unknown''"
  by (simp add: detectLanguage_def extname_def toLowerCase_def toLowerChar_def languageMap_def)

lemma intelligentChunk_known:
  assumes "intelligentChunk ext fuel src filePath opts = Returned out"
    and "detectLanguage filePath \<noteq> ''unknown''"
  shows "out = map (\<lambda>c. Enriched (enrichChunkMetadata c src filePath (calculateComplexity opts)))
                 (extractChunks ext src filePath)"
proof -
  from assms have "chunkAll (floorQuotient ext) fuel opts (detectLanguage filePath) src filePath
      (extractChunks ext src filePath) [] = Returned out"
    by (simp add: intelligentChunk_def Let_def)
  from chunkAll_returned [OF this] show ?thesis by simp
qed

lemma intelligentChunk_unknown:
  assumes "intelligentChunk ext fuel src filePath opts = Returned out"
    and "detectLanguage filePath = ''unknown''"
  shows "\<exists>cs. simpleChunk fuel src opts = Returned cs \<and> out = map Plain cs"
  using assms by (auto simp: intelligentChunk_def Let_def split: outcome.splits)

lemma chunkAll_oversize:
  "c \<in> set cs \<Longrightarrow> maxChunkSize opts < length (content c)
   \<Longrightarrow> chunkAll fq fuel opts lang src filePath cs acc \<noteq> Returned out"
proof (induction cs arbitrary: acc)
  case Nil
  then show ?case by simp
next
  case (Cons d ds)
  show ?case
  proof (cases "length (content d) \<le> maxChunkSize opts")
    case True
    with Cons.prems have "c \<in> set ds" by auto
    from Cons.IH [OF this Cons.prems(2)] True show ?thesis by simp
  next
    case False
    have "splitWithOverlap fq fuel d opts lang \<noteq> Returned subs" for subs
      by (rule splitWithOverlap_no_return)
    with False show ?thesis by (auto split: outcome.splits)
  qed
qed

text \<open>For a file of a known language with a parsed chunk longer than \<open>maxChunkSize\<close>,
  the engine does not return.\<close>

lemma intelligentChunk_oversize:
  assumes "detectLanguage filePath \<noteq> ''unknown''" and "c \<in> set (extractChunks ext src filePath)"
    and "maxChunkSize opts < length (content c)"
  shows "intelligentChunk ext fuel src filePath opts \<noteq> Returned out"
  using assms chunkAll_oversize [OF assms(2,3)] by (simp add: intelligentChunk_def Let_def)

text \<open>The two runs of the examples: a file that parses into one function, and a file
  that does not parse.\<close>

lemma example_parse: "parseJavaScript (acornParse exampleTree) exampleSource ''f.js'' = [exampleFunction]"
  by code_simp

lemma example_run:
  "intelligentChunk exampleTree fuel exampleSource ''f.js'' defaultOptions
     = Returned [Enriched (enrichChunkMetadata exampleFunction exampleSource ''f.js'' True)]"
proof -
  have "length (content exampleFunction) \<le> maxChunkSize defaultOptions"
    by (simp add: exampleFunction_def exampleSource_def nl_def defaultOptions_def)
  then show ?thesis
    by (simp add: intelligentChunk_def detect_js extractChunks_def example_parse defaultOptions_def)
qed

lemma example_never_returns:
  "intelligentChunk exampleTree fuel exampleSource ''f.js'' smallOptions \<noteq> Returned out"
proof -
  have "exampleFunction \<in> set (extractChunks exampleTree exampleSource ''f.js'')"
    by (simp add: extractChunks_def detect_js example_parse)
  moreover have "maxChunkSize smallOptions < length (content exampleFunction)"
    by (simp add: smallOptions_def defaultOptions_def exampleFunction_def exampleSource_def nl_def)
  ultimately show ?thesis
    by (intro intelligentChunk_oversize) (simp_all add: detect_js)
qed

lemma rejected_run:
  assumes "10 \<le> maxChunkSize opts"
  shows "intelligentChunk rejecting fuel ''function ('' ''a.js'' opts =
     Returned [Enriched (enrichChunkMetadata (wholeFile ''unparseable'' ''function ('') ''function (''
                 ''a.js'' (calculateComplexity opts))]"
  using assms
  by (simp add: intelligentChunk_def detect_a_js extractChunks_def parseJavaScript_def rejecting_def
      wholeFile_def bareChunk_def)

text \<open>
  C6, as stated, fails with \<open>calculateComplexity\<close> switched off: the complexity estimate
  is then 0.
\<close>

theorem complexity_zero_counterexample:
  "map complexityOf (returned (intelligentChunk rejecting 1 ''function ('' ''a.js''
      (defaultOptions\<lparr> calculateComplexity := False \<rparr>))) = [Some 0]"
  by (simp add: rejected_run defaultOptions_def returned_def complexityOf_def enrichChunkMetadata_def)

text \<open>
  C6, amended.  For every enriched chunk that the engine returns, the complexity
  estimate is in \<open>[1, 100]\<close> when \<open>calculateComplexity\<close> is set and 0 when it is not,
  and the importance score is in \<open>[0, 10]\<close>.
\<close>

theorem enriched_metrics_in_range:
  assumes "intelligentChunk ext fuel src filePath opts = Returned out" and "Enriched e \<in> set out"
  shows "(if calculateComplexity opts
          then 1 \<le> complexity_estimate (metadata e) \<and> complexity_estimate (metadata e) \<le> 100
          else complexity_estimate (metadata e) = 0)
         \<and> 0 \<le> chunk_score (metadata e) \<and> chunk_score (metadata e) \<le> 10"
proof -
  have "\<exists>c. e = enrichChunkMetadata c src filePath (calculateComplexity opts)"
  proof (cases "detectLanguage filePath = ''unknown''")
    case True
    from intelligentChunk_unknown [OF assms(1) True] assms(2) show ?thesis by auto
  next
    case False
    from intelligentChunk_known [OF assms(1) False] assms(2) show ?thesis by auto
  qed
  then obtain c where e: "e = enrichChunkMetadata c src filePath (calculateComplexity opts)" by blast
  have "0 \<le> scoreChunk c" "scoreChunk c \<le> 10"
    using scoreChunk_bounds [of c] by auto
  then show ?thesis
    using estimateComplexity_bounds [of "content c"]
    by (simp add: e enrichChunkMetadata_def)
qed

theorem enriched_metrics_in_range_witness:
  "intelligentChunk exampleTree 1 exampleSource ''f.js'' defaultOptions
     = Returned [Enriched (enrichChunkMetadata exampleFunction exampleSource ''f.js'' True)]
   \<and> calculateComplexity defaultOptions
   \<and> 1 \<le> complexity_estimate (metadata (enrichChunkMetadata exampleFunction exampleSource ''f.js'' True))
   \<and> complexity_estimate (metadata (enrichChunkMetadata exampleFunction exampleSource ''f.js'' True)) \<le> 100
   \<and> 0 \<le> chunk_score (metadata (enrichChunkMetadata exampleFunction exampleSource ''f.js'' True))
   \<and> chunk_score (metadata (enrichChunkMetadata exampleFunction exampleSource ''f.js'' True)) \<le> 10
   \<and> chunk_score (metadata (enrichChunkMetadata exampleFunction exampleSource ''f.js'' True)) = 7"
proof -
  let ?e = "enrichChunkMetadata exampleFunction exampleSource ''f.js'' True"
  have run: "intelligentChunk exampleTree 1 exampleSource ''f.js'' defaultOptions = Returned [Enriched ?e]"
    by (rule example_run)
  have calc: "calculateComplexity defaultOptions"
    by (simp add: defaultOptions_def)
  have score: "chunk_score (metadata ?e) = 7"
    by (simp add: enrichChunkMetadata_def scoreChunk_def exampleFunction_def isPublicName_def startsWith_def)
  from enriched_metrics_in_range [OF run, of ?e] calc score run show ?thesis by simp
qed


lemma extractChunks_keeps:
  assumes "detectLanguage filePath \<noteq> ''python''" and "treeWithin (acornParse ext) src"
  shows "list_all (keepsToSource src) (extractChunks ext src filePath)"
  using assms by (simp add: extractChunks_def Let_def parseJavaScript_keeps wholeFile_keeps)

lemma extractChunks_inSource:
  assumes "treeWithin (acornParse ext) src" and "matchesWithin ext src"
  shows "list_all (inSource src) (extractChunks ext src filePath)"
proof (cases "detectLanguage filePath = ''python''")
  case True
  with assms(2) show ?thesis
    by (simp add: extractChunks_def Let_def matchesWithin_def parsePython_inSource)
next
  case False
  from extractChunks_keeps [OF False assms(1)] show ?thesis
    by (simp add: list_all_iff keeps_inSource)
qed

text \<open>Every element that the engine returns stands for a chunk that lies in the source,
  and for one that keeps to the source when the file is not Python.\<close>

lemma intelligentChunk_inSource:
  assumes "intelligentChunk ext fuel src filePath opts = Returned out" and "x \<in> set out"
    and "treeWithin (acornParse ext) src" and "matchesWithin ext src"
  shows "\<exists>c. inSource src c \<and> (detectLanguage filePath \<noteq> ''python'' \<longrightarrow> keepsToSource src c)
           \<and> contentOf x = content c \<and> offsetsOf x = (startChar c, endChar c)"
proof (cases "detectLanguage filePath = ''unknown''")
  case True
  from intelligentChunk_unknown [OF assms(1) True] obtain cs where
    cs: "simpleChunk fuel src opts = Returned cs" and out: "out = map Plain cs" by blast
  from out assms(2) obtain c where c: "c \<in> set cs" "x = Plain c" by auto
  from simpleChunk_keeps [OF cs] c(1) have "keepsToSource src c" by (simp add: list_all_iff)
  with c(2) show ?thesis
    by (intro exI [of _ c]) (simp add: contentOf_def offsetsOf_def keeps_inSource)
next
  case False
  from intelligentChunk_known [OF assms(1) False] assms(2) obtain c where
    c: "c \<in> set (extractChunks ext src filePath)"
       "x = Enriched (enrichChunkMetadata c src filePath (calculateComplexity opts))" by auto
  from extractChunks_inSource [OF assms(3,4)] c(1) have 1: "inSource src c" by (simp add: list_all_iff)
  have 2: "detectLanguage filePath \<noteq> ''python'' \<longrightarrow> keepsToSource src c"
  proof
    assume "detectLanguage filePath \<noteq> ''python''"
    from extractChunks_keeps [OF this assms(3)] c(1) show "keepsToSource src c" by (simp add: list_all_iff)
  qed
  from 1 2 c(2) show ?thesis
    by (intro exI [of _ c]) (simp add: contentOf_def offsetsOf_def enrichChunkMetadata_def)
qed

text \<open>
  C7, as stated, fails on the empty source: the one chunk returned for it starts and
  ends at 0.
\<close>

theorem empty_source_counterexample:
  "map offsetsOf (returned (intelligentChunk rejecting 1 [] ''notes.txt'' defaultOptions)) = [(0, 0)]"
  by (simp add: intelligentChunk_def detect_txt simpleChunk_def returned_def offsetsOf_def bareChunk_def)

text \<open>
  C7, amended.  Every chunk that the engine returns satisfies
  \<open>0 \<le> startOffset \<le> endOffset \<le> len(source)\<close>, and \<open>startOffset < endOffset\<close>
  when the source is not empty and the file is not a Python file; this for a syntax
  tree whose declarations span ranges of the source and pattern matches that start
  inside it.
\<close>

theorem offsets_within_source:
  assumes "intelligentChunk ext fuel src filePath opts = Returned out" and "x \<in> set out"
    and "treeWithin (acornParse ext) src" and "matchesWithin ext src"
  shows "0 \<le> fst (offsetsOf x) \<and> fst (offsetsOf x) \<le> snd (offsetsOf x)
     \<and> snd (offsetsOf x) \<le> int (length src)
     \<and> (src \<noteq> [] \<and> detectLanguage filePath \<noteq> ''python'' \<longrightarrow> fst (offsetsOf x) < snd (offsetsOf x))"
  using intelligentChunk_inSource [OF assms] by (auto simp: keepsToSource_def inSource_def)

theorem offsets_within_source_witness:
  "intelligentChunk exampleTree 1 exampleSource ''f.js'' defaultOptions
     = Returned [Enriched (enrichChunkMetadata exampleFunction exampleSource ''f.js'' True)]
   \<and> detectLanguage ''f.js'' \<noteq> ''python''
   \<and> treeWithin (acornParse exampleTree) exampleSource
   \<and> matchesWithin exampleTree exampleSource
   \<and> offsetsOf (Enriched (enrichChunkMetadata exampleFunction exampleSource ''f.js'' True)) = (0, 28)
   \<and> length exampleSource = 28
   \<and> 0 \<le> fst (offsetsOf (Enriched (enrichChunkMetadata exampleFunction exampleSource ''f.js'' True)))
   \<and> fst (offsetsOf (Enriched (enrichChunkMetadata exampleFunction exampleSource ''f.js'' True)))
       < snd (offsetsOf (Enriched (enrichChunkMetadata exampleFunction exampleSource ''f.js'' True)))
   \<and> snd (offsetsOf (Enriched (enrichChunkMetadata exampleFunction exampleSource ''f.js'' True)))
       \<le> int (length exampleSource)"
proof -
  let ?x = "Enriched (enrichChunkMetadata exampleFunction exampleSource ''f.js'' True)"
  have run: "intelligentChunk exampleTree 1 exampleSource ''f.js'' defaultOptions = Returned [?x]"
    by (rule example_run)
  have mem: "?x \<in> set [?x]" by simp
  have lang: "detectLanguage ''f.js'' \<noteq> ''python''"
    by (simp add: detect_js)
  have tree: "treeWithin (acornParse exampleTree) exampleSource"
    by code_simp
  have ms: "matchesWithin exampleTree exampleSource"
    by (simp add: matchesWithin_def exampleTree_def)
  have off: "offsetsOf ?x = (0, 28)"
    by (simp add: offsetsOf_def enrichChunkMetadata_def exampleFunction_def)
  have len: "length exampleSource = 28"
    by (simp add: exampleSource_def nl_def)
  have ne: "exampleSource \<noteq> []"
    using len by auto
  from offsets_within_source [OF run mem tree ms] ne run lang tree ms off len
  show ?thesis by simp
qed


section \<open>The first sub-chunk is a range of the source\<close>

lemma first_part_keeps:
  assumes "inSource src c" and "0 \<le> sp"
  shows "content (subChunk c (jsSplit nlc (content c)) ks 0 sp 0)
       = sourceRange src (startChar (subChunk c (jsSplit nlc (content c)) ks 0 sp 0))
                         (endChar (subChunk c (jsSplit nlc (content c)) ks 0 sp 0))"
proof -
  let ?p = "jsJoin nl (take (nat sp) (jsSplit nlc (content c)))"
  have p: "take (length ?p) (content c) = ?p"
    unfolding nl_def by (rule join_take_prefix)
  then have "length (take (length ?p) (content c)) = length ?p"
    by simp
  then have len: "length ?p \<le> length (content c)"
    by simp
  from assms(1) have c: "content c = take (nat (endChar c - startChar c)) (drop (nat (startChar c)) src)"
    and r: "0 \<le> startChar c" "startChar c \<le> endChar c" "endChar c \<le> int (length src)"
    by (simp_all add: inSource_def sourceRange_def)
  from c r have lc: "length (content c) = nat (endChar c - startChar c)" by simp
  have "?p = take (length ?p) (take (nat (endChar c - startChar c)) (drop (nat (startChar c)) src))"
    using p c by simp
  also have "\<dots> = take (length ?p) (drop (nat (startChar c)) src)"
    using len lc by (simp add: min_def)
  finally have "?p = take (length ?p) (drop (nat (startChar c)) src)" .
  then show ?thesis
    using assms(2) r(1)
    by (simp add: subChunk_def signatureLine_def jsSlice_from_0 sourceRange_def split: option.splits)
qed

text \<open>A sub-chunk, once pushed, stays where it is.\<close>

lemma splitLoop_built_nth:
  "i < length (s_chunks st) \<Longrightarrow> i < length (builtChunks (splitLoop fuel c lines lpc ov ks lang st))
   \<Longrightarrow> builtChunks (splitLoop fuel c lines lpc ov ks lang st) ! i = s_chunks st ! i"
proof (induction fuel arbitrary: st)
  case 0
  then show ?case by (simp add: builtChunks_def)
next
  case (Suc fuel)
  let ?n = "int (length lines)"
  show ?case
  proof (cases "s_currentLine st < ?n")
    case False
    then show ?thesis by (simp add: builtChunks_def)
  next
    case True
    show ?thesis
    proof (cases "findOptimalSplitPoint lines (s_currentLine st) (min (s_currentLine st + lpc) ?n) lang")
      case (Inl e)
      with True Suc.prems show ?thesis by (simp add: builtChunks_def)
    next
      case (Inr sp)
      let ?x = "subChunk c lines ks (s_currentLine st) sp (s_partNumber st)"
      let ?st' = "\<lparr> s_currentLine = sp - ov, s_partNumber = s_partNumber st + 1,
                     s_chunks = s_chunks st @ [?x] \<rparr>"
      show ?thesis
      proof (cases "sp - ov \<ge> ?n - ov")
        case brk: True
        with True Inr Suc.prems(1) show ?thesis by (simp add: builtChunks_def nth_append)
      next
        case go: False
        with True Inr have step: "splitLoop (Suc fuel) c lines lpc ov ks lang st
            = splitLoop fuel c lines lpc ov ks lang ?st'" by simp
        have "i < length (s_chunks ?st')" using Suc.prems(1) by simp
        moreover have "i < length (builtChunks (splitLoop fuel c lines lpc ov ks lang ?st'))"
          using Suc.prems(2) step by simp
        ultimately have "builtChunks (splitLoop fuel c lines lpc ov ks lang ?st') ! i = s_chunks ?st' ! i"
          by (rule Suc.IH)
        with step Suc.prems(1) show ?thesis by (simp add: nth_append)
      qed
    qed
  qed
qed

lemma first_built:
  assumes "builtChunks (splitLoop fuel c lines lpc ov ks lang
              \<lparr> s_currentLine = 0, s_partNumber = 0, s_chunks = [] \<rparr>) \<noteq> []" and "0 \<le> lpc"
  shows "\<exists>sp. 0 \<le> sp \<and> builtChunks (splitLoop fuel c lines lpc ov ks lang
              \<lparr> s_currentLine = 0, s_partNumber = 0, s_chunks = [] \<rparr>) ! 0 = subChunk c lines ks 0 sp 0"
proof (cases fuel)
  case 0
  with assms(1) show ?thesis by (simp add: builtChunks_def)
next
  case (Suc f)
  let ?n = "int (length lines)"
  let ?st = "\<lparr> s_currentLine = 0, s_partNumber = 0, s_chunks = [] \<rparr>"
  have n: "0 < ?n"
    using assms(1) Suc by (cases "0 < ?n") (simp_all add: builtChunks_def)
  show ?thesis
  proof (cases "findOptimalSplitPoint lines 0 (min lpc ?n) lang")
    case (Inl e)
    with assms(1) Suc n show ?thesis by (simp add: builtChunks_def)
  next
    case (Inr sp)
    from findOptimalSplitPoint_range [OF Inr n] assms(2) have sp: "0 \<le> sp" by simp
    let ?x = "subChunk c lines ks 0 sp 0"
    let ?st' = "\<lparr> s_currentLine = sp - ov, s_partNumber = 1, s_chunks = [?x] \<rparr>"
    show ?thesis
    proof (cases "sp - ov \<ge> ?n - ov")
      case True
      with Inr Suc n have "builtChunks (splitLoop fuel c lines lpc ov ks lang ?st) = [?x]"
        by (simp add: builtChunks_def)
      with sp show ?thesis by auto
    next
      case False
      with Inr Suc n have step: "splitLoop fuel c lines lpc ov ks lang ?st
          = splitLoop f c lines lpc ov ks lang ?st'" by simp
      with assms(1) have "0 < length (builtChunks (splitLoop f c lines lpc ov ks lang ?st'))" by simp
      with splitLoop_built_nth [of 0 ?st' f c lines lpc ov ks lang]
      have "builtChunks (splitLoop f c lines lpc ov ks lang ?st') ! 0 = ?x" by simp
      with step sp show ?thesis by auto
    qed
  qed
qed

lemma first_built_keeps:
  assumes "inSource src c" and "builtChunks (splitWithOverlap fq fuel c opts lang) \<noteq> []"
  shows "content (builtChunks (splitWithOverlap fq fuel c opts lang) ! 0)
       = sourceRange src (startChar (builtChunks (splitWithOverlap fq fuel c opts lang) ! 0))
                         (endChar (builtChunks (splitWithOverlap fq fuel c opts lang) ! 0))"
proof -
  let ?lines = "jsSplit nlc (content c)"
  let ?lpc = "int (fq (maxChunkSize opts) (length (content c)) (length ?lines))"
  let ?ov = "int (fq (overlap opts) (length (content c)) (length ?lines))"
  let ?r = "splitLoop fuel c ?lines ?lpc ?ov (preserveSignatures opts) lang
              \<lparr> s_currentLine = 0, s_partNumber = 0, s_chunks = [] \<rparr>"
  have "\<exists>t. builtChunks (splitWithOverlap fq fuel c opts lang)
      = map (\<lambda>x. x\<lparr> totalParts := t x \<rparr>) (builtChunks ?r)"
  proof (cases ?r)
    case (Returned cs)
    then have "builtChunks (splitWithOverlap fq fuel c opts lang)
        = map (\<lambda>x. x\<lparr> totalParts := Some (length cs) \<rparr>) (builtChunks ?r)"
      by (simp add: splitWithOverlap_def Let_def builtChunks_def)
    then show ?thesis by (intro exI [of _ "\<lambda>x. Some (length cs)"])
  next
    case (Threw e)
    then have "builtChunks (splitWithOverlap fq fuel c opts lang)
        = map (\<lambda>x. x\<lparr> totalParts := totalParts x \<rparr>) (builtChunks ?r)"
      by (simp add: splitWithOverlap_def Let_def builtChunks_def)
    then show ?thesis by (intro exI [of _ totalParts])
  next
    case (Running st)
    then have "builtChunks (splitWithOverlap fq fuel c opts lang)
        = map (\<lambda>x. x\<lparr> totalParts := totalParts x \<rparr>) (builtChunks ?r)"
      by (simp add: splitWithOverlap_def Let_def builtChunks_def)
    then show ?thesis by (intro exI [of _ totalParts])
  qed
  then obtain t where b: "builtChunks (splitWithOverlap fq fuel c opts lang)
      = map (\<lambda>x. x\<lparr> totalParts := t x \<rparr>) (builtChunks ?r)" by blast
  with assms(2) have ne: "builtChunks ?r \<noteq> []" by auto
  from first_built [OF ne] obtain sp where sp: "0 \<le> sp"
    and x: "builtChunks ?r ! 0 = subChunk c ?lines (preserveSignatures opts) 0 sp 0" by auto
  from ne have "builtChunks (splitWithOverlap fq fuel c opts lang) ! 0
      = (builtChunks ?r ! 0)\<lparr> totalParts := t (builtChunks ?r ! 0) \<rparr>"
    unfolding b by (cases "builtChunks ?r") simp_all
  with x first_part_keeps [OF assms(1) sp, of "preserveSignatures opts"] show ?thesis by simp
qed

text \<open>
  C2, as stated, fails on the sub-chunks after the first when \<open>preserveSignatures\<close> is
  set: the second sub-chunk pushed for the three-line function is the signature line,
  and its offsets span nothing.
\<close>

theorem sub_chunk_content_counterexample:
  "content (builtChunks (splitWithOverlap exampleQuotient 2 exampleFunction smallOptions ''javascript'') ! 1) = ''function f() {''
   \<and> startChar (builtChunks (splitWithOverlap exampleQuotient 2 exampleFunction smallOptions ''javascript'') ! 1) = 26
   \<and> endChar (builtChunks (splitWithOverlap exampleQuotient 2 exampleFunction smallOptions ''javascript'') ! 1) = 26
   \<and> sourceRange exampleSource 26 26 = []"
  by code_simp

text \<open>
  C2, amended.  For every chunk that the engine returns, and for the first sub-chunk
  that the splitter pushes for a chunk that lies in the source, the content is the
  range of the source between the two offsets; this for a syntax tree whose
  declarations span ranges of the source and pattern matches that start inside it.
\<close>

theorem content_is_source_range:
  "(intelligentChunk ext fuel src filePath opts = Returned out \<and> x \<in> set out
      \<and> treeWithin (acornParse ext) src \<and> matchesWithin ext src
    \<longrightarrow> contentOf x = sourceRange src (fst (offsetsOf x)) (snd (offsetsOf x)))
   \<and> (maxChunkSize opts < length (content c) \<and> inSource src c
        \<and> builtChunks (splitWithOverlap fq fuel c opts lang) \<noteq> []
      \<longrightarrow> content (builtChunks (splitWithOverlap fq fuel c opts lang) ! 0)
          = sourceRange src (startChar (builtChunks (splitWithOverlap fq fuel c opts lang) ! 0))
                            (endChar (builtChunks (splitWithOverlap fq fuel c opts lang) ! 0)))"
proof (intro conjI impI)
  assume "intelligentChunk ext fuel src filePath opts = Returned out \<and> x \<in> set out
      \<and> treeWithin (acornParse ext) src \<and> matchesWithin ext src"
  then obtain c' where "inSource src c'" "contentOf x = content c'"
      "offsetsOf x = (startChar c', endChar c')"
    using intelligentChunk_inSource [of ext fuel src filePath opts out x] by blast
  then show "contentOf x = sourceRange src (fst (offsetsOf x)) (snd (offsetsOf x))"
    by (simp add: inSource_def)
next
  assume "maxChunkSize opts < length (content c) \<and> inSource src c
        \<and> builtChunks (splitWithOverlap fq fuel c opts lang) \<noteq> []"
  then show "content (builtChunks (splitWithOverlap fq fuel c opts lang) ! 0)
          = sourceRange src (startChar (builtChunks (splitWithOverlap fq fuel c opts lang) ! 0))
                            (endChar (builtChunks (splitWithOverlap fq fuel c opts lang) ! 0))"
    using first_built_keeps by blast
qed

theorem content_is_source_range_witness:
  "intelligentChunk exampleTree 1 exampleSource ''f.js'' defaultOptions
     = Returned [Enriched (enrichChunkMetadata exampleFunction exampleSource ''f.js'' True)]
   \<and> contentOf (Enriched (enrichChunkMetadata exampleFunction exampleSource ''f.js'' True))
       = sourceRange exampleSource 0 28
   \<and> maxChunkSize smallOptions < length (content exampleFunction)
   \<and> inSource exampleSource exampleFunction
   \<and> length (builtChunks (splitWithOverlap exampleQuotient 2 exampleFunction smallOptions ''javascript'')) = 2
   \<and> content (builtChunks (splitWithOverlap exampleQuotient 2 exampleFunction smallOptions ''javascript'') ! 0)
       = sourceRange exampleSource 0 26"
proof -
  let ?x = "Enriched (enrichChunkMetadata exampleFunction exampleSource ''f.js'' True)"
  let ?b = "builtChunks (splitWithOverlap exampleQuotient 2 exampleFunction smallOptions ''javascript'')"
  have run: "intelligentChunk exampleTree 1 exampleSource ''f.js'' defaultOptions = Returned [?x]"
    by (rule example_run)
  have lang: "detectLanguage ''f.js'' \<noteq> ''python''"
    by (simp add: detect_js)
  have tree: "treeWithin (acornParse exampleTree) exampleSource"
    by code_simp
  have off: "offsetsOf ?x = (0, 28)"
    by (simp add: offsetsOf_def enrichChunkMetadata_def exampleFunction_def)
  have big: "maxChunkSize smallOptions < length (content exampleFunction)"
    by code_simp
  have keeps: "inSource exampleSource exampleFunction"
    by code_simp
  have ms: "matchesWithin exampleTree exampleSource"
    by (simp add: matchesWithin_def exampleTree_def)
  have len: "length ?b = 2"
    by code_simp
  then have ne: "?b \<noteq> []" by auto
  have offs: "startChar (?b ! 0) = 0" "endChar (?b ! 0) = 26"
    by code_simp+
  from content_is_source_range [where ext = exampleTree and fuel = 1 and src = exampleSource
      and filePath = "''f.js''" and opts = defaultOptions and out = "[?x]" and x = ?x]
  have 1: "contentOf ?x = sourceRange exampleSource (fst (offsetsOf ?x)) (snd (offsetsOf ?x))"
    using run tree ms by simp
  from content_is_source_range [where src = exampleSource and opts = smallOptions
      and c = exampleFunction and fuel = 2 and lang = "''javascript''"]
  have 2: "content (?b ! 0) = sourceRange exampleSource (startChar (?b ! 0)) (endChar (?b ! 0))"
    using big keeps ne by simp
  from 1 2 show ?thesis
    using run big keeps len unfolding off offs by simp
qed


section \<open>A file of unknown language\<close>

text \<open>
  C4.  The claim: every element that the engine returns for a file with an unrecognized
  extension is an enriched chunk whose metadata report the language \<open>unknown\<close>.  The
  code returns what \<open>simpleChunk\<close> built, without metadata: for the content
  \<open>hello\<close> in \<open>notes.txt\<close>, the one plain chunk.
\<close>

theorem unknown_language_returns_plain_chunk:
  "intelligentChunk ext fuel ''hello'' ''notes.txt'' defaultOptions
     = Returned [Plain (bareChunk ''text'' ''content'' 1 1 0 5 ''hello'')]"
  by (simp add: intelligentChunk_def detect_txt simpleChunk_def defaultOptions_def nlc_def)

end
